theory Spec2Isabelle
  imports Main
begin

section \<open>Values and exceptions\<close>

text \<open>
  A Python \<^verbatim>\<open>str\<close> is a sequence of Unicode code points, so it is modelled as a list of
  natural numbers; \<open>lit\<close> turns an ASCII literal into such a string.
\<close>

type_synonym pystr = "nat list"

definition lit :: "string \<Rightarrow> pystr" where
  "lit s = map of_char s"

text \<open>
  The values a configuration can hold: \<^verbatim>\<open>None\<close>, booleans, integers, strings, lists and
  mappings (with distinct keys, looked up from the front).
\<close>

datatype pyval =
    PNone | PBool bool | PInt int | PStr pystr | PList "pyval list" | PDict "(pystr \<times> pyval) list"

text \<open>The truth value Python gives to one of them in a condition.\<close>

fun truthy :: "pyval \<Rightarrow> bool" where
  "truthy PNone = False"
| "truthy (PBool b) = b"
| "truthy (PInt i) = (i \<noteq> 0)"
| "truthy (PStr s) = (s \<noteq> [])"
| "truthy (PList xs) = (xs \<noteq> [])"
| "truthy (PDict kvs) = (kvs \<noteq> [])"

text \<open>The exceptions the code can meet; \<open>OtherError\<close> is any exception of another class.\<close>

datatype exn =
    DMARCError | ConfigError | KeyError | AttributeError | TypeError
  | UnboundLocalError | UnicodeEncodeError | UnicodeDecodeError | IndexError | OtherError

section \<open>Configuration lookup (src/utils/config.py)\<close>

text \<open>
  \<^verbatim>\<open>cfg[key]\<close> of the external configuration store either yields a value or raises.
  The function, without its logging:
  \<^verbatim>\<open>
  def get_config_value(cfg: Config, key: str, default: any = None) -> any:
      try:
          value = cfg[key]
          return value
      except (ConfigError, KeyError):
          pass
      try:
          legacy_key = f"dmarc.{key}"
          value = cfg[legacy_key]
          return value
      except (ConfigError, KeyError):
          return default
  \<close>
\<close>

type_synonym 'v config = "pystr \<Rightarrow> exn + 'v"

definition absent :: "exn + 'v \<Rightarrow> bool" where
  "absent r = (r = Inl ConfigError \<or> r = Inl KeyError)"

definition legacy_key :: "pystr \<Rightarrow> pystr" where
  "legacy_key key = lit ''dmarc.'' @ key"

definition get_config_value :: "'v config \<Rightarrow> pystr \<Rightarrow> 'v \<Rightarrow> exn + 'v" where
  "get_config_value cfg key dflt =
     (case cfg key of
        Inr v \<Rightarrow> Inr v
      | Inl e \<Rightarrow>
          if e = ConfigError \<or> e = KeyError then
            (case cfg (legacy_key key) of
               Inr v \<Rightarrow> Inr v
             | Inl e' \<Rightarrow> if e' = ConfigError \<or> e' = KeyError then Inr dflt else Inl e')
          else Inl e)"

text \<open>The store of the repository's configuration test.\<close>

definition test_config :: "pyval config" where
  "test_config k =
     (if k = lit ''toplevel'' then Inr (PStr (lit ''toplevel''))
      else if k = lit ''dmarc.subkey'' then Inr (PStr (lit ''subkey''))
      else if k = lit ''dmarc.toplevel'' then Inr (PStr (lit ''error''))
      else if k = lit ''dmarc''
      then Inr (PDict [(lit ''subkey'', PStr (lit ''subkey'')), (lit ''toplevel'', PStr (lit ''error''))])
      else Inl ConfigError)"

section \<open>Strings of the standard library\<close>

text \<open>
  \<^verbatim>\<open>str.replace(old, new)\<close>: the occurrences of \<open>old\<close> are replaced from the left, without
  overlap; an empty \<open>old\<close> matches before every character and at the end.
\<close>

function replace :: "pystr \<Rightarrow> pystr \<Rightarrow> pystr \<Rightarrow> pystr" where
  "replace s old new =
     (if old = [] then new @ concat (map (\<lambda>c. c # new) s)
      else if s = [] then []
      else if take (length old) s = old then new @ replace (drop (length old) s) old new
      else hd s # replace (tl s) old new)"
  by pat_completeness auto
termination
  by (relation "measure (\<lambda>(s, old, new). length s)") auto

declare replace.simps [simp del]

text \<open>
  \<^verbatim>\<open>str.split(sep, maxsplit)\<close> for a separator of one character: at most \<open>maxsplit\<close> cuts,
  from the left.
\<close>

fun split :: "pystr \<Rightarrow> nat \<Rightarrow> nat \<Rightarrow> pystr list" where
  "split [] sep maxsplit = [[]]"
| "split (c # cs) sep maxsplit =
     (if c = sep \<and> 0 < maxsplit then [] # split cs sep (maxsplit - 1)
      else (let parts = split cs sep maxsplit in (c # hd parts) # tl parts))"

text \<open>\<^verbatim>\<open>str.isspace\<close> on one character, and \<^verbatim>\<open>str.strip()\<close>.\<close>

definition isspace :: "nat \<Rightarrow> bool" where
  "isspace c =
     (9 \<le> c \<and> c \<le> 13 \<or> 28 \<le> c \<and> c \<le> 32 \<or> c = 0x85 \<or> c = 0xA0 \<or> c = 0x1680 \<or>
      0x2000 \<le> c \<and> c \<le> 0x200A \<or> c = 0x2028 \<or> c = 0x2029 \<or> c = 0x202F \<or> c = 0x205F \<or>
      c = 0x3000)"

definition strip :: "pystr \<Rightarrow> pystr" where
  "strip s = rev (dropWhile isspace (rev (dropWhile isspace s)))"

text \<open>\<^verbatim>\<open>sep.join(parts)\<close>.\<close>

fun join :: "pystr \<Rightarrow> pystr list \<Rightarrow> pystr" where
  "join sep [] = []"
| "join sep [p] = p"
| "join sep (p # ps) = p @ sep @ join sep ps"

text \<open>
  \<^verbatim>\<open>str.lower()\<close> on ASCII. Header field names are ASCII; on other strings the only use
  made of the result, the comparison with \<^verbatim>\<open>"from"\<close> and \<^verbatim>\<open>"x-original-from"\<close>, has the same
  outcome, since no character outside ASCII lowers to one of their letters.
\<close>

definition lower :: "pystr \<Rightarrow> pystr" where
  "lower s = map (\<lambda>c. if 65 \<le> c \<and> c \<le> 90 then c + 32 else c) s"

section \<open>UTF-8 (\<^verbatim>\<open>str.encode\<close>, \<^verbatim>\<open>bytes.decode\<close>)\<close>

text \<open>
  A code point that UTF-8 can encode: below \<open>0x110000\<close> and no surrogate.
\<close>

definition scalar :: "nat \<Rightarrow> bool" where
  "scalar c = (c < 0xD800 \<or> 0xDFFF < c \<and> c < 0x110000)"

definition utf8_encode_cp :: "nat \<Rightarrow> exn + nat list" where
  "utf8_encode_cp c =
     (if c < 0x80 then Inr [c]
      else if c < 0x800 then Inr [0xC0 + c div 64, 0x80 + c mod 64]
      else if c < 0x10000 then
        (if 0xD800 \<le> c \<and> c \<le> 0xDFFF then Inl UnicodeEncodeError
         else Inr [0xE0 + c div 4096, 0x80 + (c div 64) mod 64, 0x80 + c mod 64])
      else if c < 0x110000 then
        Inr [0xF0 + c div 262144, 0x80 + (c div 4096) mod 64, 0x80 + (c div 64) mod 64,
             0x80 + c mod 64]
      else Inl UnicodeEncodeError)"

text \<open>\<^verbatim>\<open>s.encode()\<close>: UTF-8, errors strict.\<close>

fun encode :: "pystr \<Rightarrow> exn + nat list" where
  "encode [] = Inr []"
| "encode (c # cs) =
     (case utf8_encode_cp c of
        Inl e \<Rightarrow> Inl e
      | Inr bs \<Rightarrow> (case encode cs of Inl e \<Rightarrow> Inl e | Inr rest \<Rightarrow> Inr (bs @ rest)))"

definition continuation :: "nat \<Rightarrow> bool" where
  "continuation b = (0x80 \<le> b \<and> b \<le> 0xBF)"

text \<open>The second byte of a sequence, whose range depends on the first.\<close>

definition second_ok :: "nat \<Rightarrow> nat \<Rightarrow> bool" where
  "second_ok b0 b1 =
     (if b0 = 0xE0 then 0xA0 \<le> b1 \<and> b1 \<le> 0xBF
      else if b0 = 0xED then 0x80 \<le> b1 \<and> b1 \<le> 0x9F
      else if b0 = 0xF0 then 0x90 \<le> b1 \<and> b1 \<le> 0xBF
      else if b0 = 0xF4 then 0x80 \<le> b1 \<and> b1 \<le> 0x8F
      else continuation b1)"

text \<open>
  The decoder's step on a non-empty byte string: the code point at its front, or \<open>None\<close>
  for a malformed sequence, and the number of bytes taken (the longest prefix of a
  well-formed sequence, at least one byte).
\<close>

fun utf8_first :: "nat list \<Rightarrow> nat option \<times> nat" where
  "utf8_first [] = (None, 1)"
| "utf8_first (b0 # bs) =
     (if b0 < 0x80 then (Some b0, 1)
      else if 0xC2 \<le> b0 \<and> b0 \<le> 0xDF then
        (case bs of
           b1 # _ \<Rightarrow>
             if continuation b1 then (Some ((b0 - 0xC0) * 64 + (b1 - 0x80)), 2) else (None, 1)
         | [] \<Rightarrow> (None, 1))
      else if 0xE0 \<le> b0 \<and> b0 \<le> 0xEF then
        (case bs of
           b1 # bs1 \<Rightarrow>
             if second_ok b0 b1 then
               (case bs1 of
                  b2 # _ \<Rightarrow>
                    if continuation b2
                    then (Some ((b0 - 0xE0) * 4096 + (b1 - 0x80) * 64 + (b2 - 0x80)), 3)
                    else (None, 2)
                | [] \<Rightarrow> (None, 2))
             else (None, 1)
         | [] \<Rightarrow> (None, 1))
      else if 0xF0 \<le> b0 \<and> b0 \<le> 0xF4 then
        (case bs of
           b1 # bs1 \<Rightarrow>
             if second_ok b0 b1 then
               (case bs1 of
                  b2 # bs2 \<Rightarrow>
                    if continuation b2 then
                      (case bs2 of
                         b3 # _ \<Rightarrow>
                           if continuation b3
                           then (Some ((b0 - 0xF0) * 262144 + (b1 - 0x80) * 4096 +
                                       (b2 - 0x80) * 64 + (b3 - 0x80)), 4)
                           else (None, 3)
                       | [] \<Rightarrow> (None, 3))
                    else (None, 2)
                | [] \<Rightarrow> (None, 2))
             else (None, 1)
         | [] \<Rightarrow> (None, 1))
      else (None, 1))"

text \<open>\<^verbatim>\<open>bs.decode('utf-8', 'replace')\<close>: a malformed sequence becomes U+FFFD.\<close>

function utf8_decode_replace :: "nat list \<Rightarrow> pystr" where
  "utf8_decode_replace bs =
     (if bs = [] then []
      else (case fst (utf8_first bs) of None \<Rightarrow> 0xFFFD | Some c \<Rightarrow> c)
             # utf8_decode_replace (drop (snd (utf8_first bs)) bs))"
  by pat_completeness auto
termination
  by (relation "measure length") (auto simp: neq_Nil_conv split: list.splits)

declare utf8_decode_replace.simps [simp del]

text \<open>\<^verbatim>\<open>bs.decode()\<close>: UTF-8, errors strict.\<close>

function decode :: "nat list \<Rightarrow> exn + pystr" where
  "decode bs =
     (if bs = [] then Inr []
      else (case fst (utf8_first bs) of
              None \<Rightarrow> Inl UnicodeDecodeError
            | Some c \<Rightarrow>
                (case decode (drop (snd (utf8_first bs)) bs) of
                   Inl e \<Rightarrow> Inl e
                 | Inr rest \<Rightarrow> Inr (c # rest))))"
  by pat_completeness auto
termination
  by (relation "measure length") (auto simp: neq_Nil_conv split: list.splits)

declare decode.simps [simp del]

section \<open>Percent-encoding (\<^verbatim>\<open>urllib.parse.quote\<close>, \<^verbatim>\<open>urllib.parse.unquote\<close>)\<close>

text \<open>
  The two functions of the standard library as CPython defines them. \<^verbatim>\<open>quote(string)\<close>
  encodes the string (UTF-8, strict) and replaces every byte outside the safe set by
  \<^verbatim>\<open>'%{:02X}'.format(b)\<close>. \<^verbatim>\<open>unquote(string)\<close> returns a string without \<^verbatim>\<open>%\<close> as it is; otherwise
  it cuts the string into runs of ASCII characters and the rest
  (\<^verbatim>\<open>re.compile('([\x00-\x7f]+)').split\<close>), and replaces each run by
  \<^verbatim>\<open>unquote_to_bytes(run).decode('utf-8', 'replace')\<close>, where \<^verbatim>\<open>unquote_to_bytes\<close> turns a \<^verbatim>\<open>%\<close>
  followed by two hexadecimal digits, of either case, into the byte and leaves every
  other \<^verbatim>\<open>%\<close> in place.
\<close>

text \<open>The bytes \<^verbatim>\<open>quote\<close> leaves as they are: letters, digits, \<^verbatim>\<open>_.-~\<close> and the default safe \<^verbatim>\<open>/\<close>.\<close>

definition safe_byte :: "nat \<Rightarrow> bool" where
  "safe_byte b =
     (65 \<le> b \<and> b \<le> 90 \<or> 97 \<le> b \<and> b \<le> 122 \<or> 48 \<le> b \<and> b \<le> 57 \<or>
      b = 95 \<or> b = 46 \<or> b = 45 \<or> b = 126 \<or> b = 47)"

definition hexdigit :: "nat \<Rightarrow> nat" where
  "hexdigit n = (if n < 10 then 48 + n else 55 + n)"

definition quote_byte :: "nat \<Rightarrow> pystr" where
  "quote_byte b = (if safe_byte b then [b] else [37, hexdigit (b div 16), hexdigit (b mod 16)])"

definition quote_from_bytes :: "nat list \<Rightarrow> pystr" where
  "quote_from_bytes bs = concat (map quote_byte bs)"

definition quote :: "pystr \<Rightarrow> exn + pystr" where
  "quote s = (case encode s of Inl e \<Rightarrow> Inl e | Inr bs \<Rightarrow> Inr (quote_from_bytes bs))"

definition hexval :: "nat \<Rightarrow> nat option" where
  "hexval c =
     (if 48 \<le> c \<and> c \<le> 57 then Some (c - 48)
      else if 65 \<le> c \<and> c \<le> 70 then Some (c - 55)
      else if 97 \<le> c \<and> c \<le> 102 then Some (c - 87)
      else None)"

text \<open>
  \<^verbatim>\<open>unquote_to_bytes\<close> on a run of ASCII characters (the only strings \<^verbatim>\<open>unquote\<close> gives it,
  and their own UTF-8 encoding): a \<^verbatim>\<open>%\<close> followed by two hexadecimal digits is the byte they
  denote, every other character stays.
\<close>

fun unquote_to_bytes :: "pystr \<Rightarrow> nat list" where
  "unquote_to_bytes (p # a # b # cs) =
     (if p = 37 then
        (case hexval a of
           Some x \<Rightarrow>
             (case hexval b of
                Some y \<Rightarrow> (16 * x + y) # unquote_to_bytes cs
              | None \<Rightarrow> p # unquote_to_bytes (a # b # cs))
         | None \<Rightarrow> p # unquote_to_bytes (a # b # cs))
      else p # unquote_to_bytes (a # b # cs))"
| "unquote_to_bytes cs = cs"

text \<open>
  \<^verbatim>\<open>unquote\<close> on a string that holds a \<^verbatim>\<open>%\<close>: every maximal run of ASCII characters is
  unquoted to bytes and decoded (errors replaced), the other characters stay.
\<close>

function unquote_parts :: "pystr \<Rightarrow> pystr" where
  "unquote_parts [] = []"
| "unquote_parts (c # cs) =
     (if c < 128 then
        utf8_decode_replace (unquote_to_bytes (c # takeWhile (\<lambda>x. x < 128) cs))
          @ unquote_parts (dropWhile (\<lambda>x. x < 128) cs)
      else c # unquote_parts cs)"
  by pat_completeness auto
termination
  by (relation "measure length") (auto simp: less_Suc_eq_le length_dropWhile_le)

definition unquote :: "pystr \<Rightarrow> pystr" where
  "unquote s = (if 37 \<in> set s then unquote_parts s else s)"

text \<open>
  A string in which no \<^verbatim>\<open>%\<close> is followed by two hexadecimal digits: every percent
  sequence in it is malformed.
\<close>

fun escape_free :: "pystr \<Rightarrow> bool" where
  "escape_free (p # a # b # cs) =
     (\<not> (p = 37 \<and> hexval a \<noteq> None \<and> hexval b \<noteq> None) \<and> escape_free (a # b # cs))"
| "escape_free cs = True"

text \<open>
  What follows a \<^verbatim>\<open>%\<close> does not begin with two hexadecimal digits: the percent sequence is
  malformed.
\<close>

fun malformed_start :: "pystr \<Rightarrow> bool" where
  "malformed_start (a # b # cs) = (hexval a = None \<or> hexval b = None)"
| "malformed_start cs = True"

section \<open>The address codec (src/milter/processor.py)\<close>

text \<open>
  \<^verbatim>\<open>
  def quote_email_address(email_addr: str, percent_quote_char: str = "=") -> str:
      return urllib.parse.quote(email_addr).replace("%", percent_quote_char)
  
  def unquote_email_address(email_addr: str, percent_quote_char: str = "=") -> str:
      return urllib.parse.unquote(email_addr.replace(percent_quote_char, "%"))
  \<close>
\<close>

definition quote_email_address :: "pystr \<Rightarrow> pystr \<Rightarrow> exn + pystr" where
  "quote_email_address email_addr percent_quote_char =
     (case quote email_addr of
        Inl e \<Rightarrow> Inl e
      | Inr quoted \<Rightarrow> Inr (replace quoted (lit ''%'') percent_quote_char))"

definition unquote_email_address :: "pystr \<Rightarrow> pystr \<Rightarrow> pystr" where
  "unquote_email_address email_addr percent_quote_char =
     unquote (replace email_addr percent_quote_char (lit ''%''))"

section \<open>The required headers (src/milter/processor.py)\<close>

text \<open>
  \<^verbatim>\<open>
  def check_required_headers(required_config: dict, headers: list[dict]) -> bool:
      if "header" not in required_config:
          return True
      for header_entry in headers:
          required_value = required_config["header"].get(header_entry["name"], None)
          stripped_header = header_entry["value"].strip()
          if (
              required_value is True
              or (isinstance(required_value, str) and stripped_header == required_value)
              or (isinstance(required_value, list) and stripped_header in required_value)
          ):
              return True
      return False
  \<close>
\<close>

text \<open>The dictionary \<^verbatim>\<open>handle\<close> builds for each header of the message.\<close>

record header_entry =
  entry_name :: pystr
  entry_lower_name :: pystr
  entry_value :: pystr

text \<open>\<^verbatim>\<open>d.get(k, None)\<close>; only a mapping has the method.\<close>

fun dict_get :: "pyval \<Rightarrow> pystr \<Rightarrow> exn + pyval" where
  "dict_get (PDict kvs) k = Inr (case map_of kvs k of None \<Rightarrow> PNone | Some v \<Rightarrow> v)"
| "dict_get _ k = Inl AttributeError"

text \<open>The condition of the loop body on the requirement found and the stripped value.\<close>

fun requirement_met :: "pyval \<Rightarrow> pystr \<Rightarrow> bool" where
  "requirement_met (PBool b) stripped_header = b"
| "requirement_met (PStr required_value) stripped_header = (stripped_header = required_value)"
| "requirement_met (PList required_value) stripped_header = (PStr stripped_header \<in> set required_value)"
| "requirement_met _ stripped_header = False"

fun check_headers_loop :: "pyval \<Rightarrow> header_entry list \<Rightarrow> exn + bool" where
  "check_headers_loop required [] = Inr False"
| "check_headers_loop required (header_entry # headers) =
     (case dict_get required (entry_name header_entry) of
        Inl e \<Rightarrow> Inl e
      | Inr required_value \<Rightarrow>
          if requirement_met required_value (strip (entry_value header_entry)) then Inr True
          else check_headers_loop required headers)"

definition check_required_headers :: "(pystr \<times> pyval) list \<Rightarrow> header_entry list \<Rightarrow> exn + bool" where
  "check_required_headers required_config headers =
     (case map_of required_config (lit ''header'') of
        None \<Rightarrow> Inr True
      | Some required \<Rightarrow> check_headers_loop required headers)"

section \<open>The DMARC evaluation (src/milter/processor.py)\<close>

text \<open>
  What \<^verbatim>\<open>dmarc.get_dmarc_record\<close> returns, as far as the code reads it: the location and, for
  each tag of \<^verbatim>\<open>["parsed"]["tags"]\<close>, its \<^verbatim>\<open>["value"]\<close>. The oracle itself is a parameter.
\<close>

record dmarc_record =
  location :: pystr
  tags :: "(pystr \<times> pystr) list"

definition no_mail_values :: "pystr list" where
  "no_mail_values = [lit ''reject'', lit ''quarantine'']"

text \<open>\<^verbatim>\<open>dmarc_record["parsed"]["tags"][tag]["value"] in no_mail_values\<close>.\<close>

definition tag_in_no_mail_values :: "dmarc_record \<Rightarrow> pystr \<Rightarrow> exn + bool" where
  "tag_in_no_mail_values dmarc_record tag =
     (case map_of (tags dmarc_record) tag of
        None \<Rightarrow> Inl KeyError
      | Some v \<Rightarrow> Inr (v \<in> set no_mail_values))"

text \<open>
  The function, without its logging. Only the tag that decides is read: the first
  condition stops at \<^verbatim>\<open>not is_subdomain\<close> for a subdomain, the second at \<^verbatim>\<open>is_subdomain\<close> for
  the domain itself.
  \<^verbatim>\<open>
  def check_dmarc_rejection(domain: str):
      no_mail_values = ["reject", "quarantine"]
      try:
          dmarc_record = dmarc.get_dmarc_record(domain)
          is_subdomain = dmarc_record["location"] != domain
          if (
              not is_subdomain
              and dmarc_record["parsed"]["tags"]["p"]["value"] in no_mail_values
          ):
              return True
          if (
              is_subdomain
              and dmarc_record["parsed"]["tags"]["sp"]["value"] in no_mail_values
          ):
              return True
      except dmarc.DMARCError as e:
          logger.error("Ignoring DMARC error: %(reason)s", {"reason": str(e)})
      return False
  \<close>
\<close>

definition check_dmarc_rejection :: "(pystr \<Rightarrow> exn + dmarc_record) \<Rightarrow> pystr \<Rightarrow> exn + bool" where
  "check_dmarc_rejection get_dmarc_record domain =
     (case
        (case get_dmarc_record domain of
           Inl e \<Rightarrow> Inl e
         | Inr dmarc_record \<Rightarrow>
             (let is_subdomain = (location dmarc_record \<noteq> domain) in
              case (if is_subdomain then Inr False else tag_in_no_mail_values dmarc_record (lit ''p'')) of
                Inl e \<Rightarrow> Inl e
              | Inr True \<Rightarrow> Inr True
              | Inr False \<Rightarrow>
                  (case (if is_subdomain then tag_in_no_mail_values dmarc_record (lit ''sp'')
                         else Inr False) of
                     Inl e \<Rightarrow> Inl e
                   | Inr True \<Rightarrow> Inr True
                   | Inr False \<Rightarrow> Inr False)))
      of
        Inl e \<Rightarrow> if e = DMARCError then Inr False else Inl e
      | Inr b \<Rightarrow> Inr b)"

text \<open>
  \<^verbatim>\<open>
  def check_all_dmarc_rejections(domains: Iterable[str]):
      for domain in domains:
          if check_dmarc_rejection(domain) is False:
              return False
      return True
  \<close>
\<close>

fun check_all_dmarc_rejections :: "(pystr \<Rightarrow> exn + dmarc_record) \<Rightarrow> pystr list \<Rightarrow> exn + bool" where
  "check_all_dmarc_rejections get_dmarc_record [] = Inr True"
| "check_all_dmarc_rejections get_dmarc_record (domain # domains) =
     (case check_dmarc_rejection get_dmarc_record domain of
        Inl e \<Rightarrow> Inl e
      | Inr False \<Rightarrow> Inr False
      | Inr True \<Rightarrow> check_all_dmarc_rejections get_dmarc_record domains)"

section \<open>The parts of an address (src/milter/processor.py)\<close>

text \<open>\<^verbatim>\<open>xs[i]\<close> for \<open>i \<ge> 0\<close>.\<close>

definition index :: "'a list \<Rightarrow> nat \<Rightarrow> exn + 'a" where
  "index xs i = (if i < length xs then Inr (xs ! i) else Inl IndexError)"

text \<open>
  \<^verbatim>\<open>
  def extract_domain(email_addr: str) -> Optional[str]:
      return email_addr.split("@", 2)[1] if "@" in email_addr else False
  
  def extract_localpart(email_addr: str) -> str:
      return email_addr.split("@", 2)[0] if "@" in email_addr else email_addr
  \<close>
  The domain is modelled as an option, with \<open>None\<close> for the \<^verbatim>\<open>False\<close> the code returns when
  there is no \<^verbatim>\<open>@\<close>.
\<close>

definition extract_domain :: "pystr \<Rightarrow> exn + pystr option" where
  "extract_domain email_addr =
     (if 64 \<in> set email_addr then
        (case index (split email_addr 64 2) 1 of Inl e \<Rightarrow> Inl e | Inr d \<Rightarrow> Inr (Some d))
      else Inr None)"

definition extract_localpart :: "pystr \<Rightarrow> exn + pystr" where
  "extract_localpart email_addr =
     (if 64 \<in> set email_addr then index (split email_addr 64 2) 0 else Inr email_addr)"

section \<open>The session and the external collaborators\<close>

text \<open>A header of the milter session: its name and its value, a byte string.\<close>

record header =
  header_name :: pystr
  header_value :: "nat list"

datatype position = END

text \<open>
  The edits \<^verbatim>\<open>session.headers\<close> offers. The header an edit refers to may be \<^verbatim>\<open>None\<close>, since
  the code passes \<^verbatim>\<open>from_header\<close> as it found it.
\<close>

datatype mutation =
    Insert header position
  | Update "header option" "nat list"
  | Delete "header option"

text \<open>
  What the code calls and does not define: the configuration store, the DMARC oracle,
  \<^verbatim>\<open>email.utils.getaddresses\<close> on one field value, the text of
  \<^verbatim>\<open>email.headerregistry.Address(display_name, username, domain)\<close>, whether the milter
  runtime raises on an edit, and \<^verbatim>\<open>as_dict()\<close> of a configuration entry, which is a method of
  the configuration library's objects (a plain dictionary has none, and the call raises).
\<close>

record env =
  app_config :: "pyval config"
  get_dmarc_record :: "pystr \<Rightarrow> exn + dmarc_record"
  getaddresses :: "pystr \<Rightarrow> (pystr \<times> pystr) list"
  address_str :: "pystr \<Rightarrow> pystr \<Rightarrow> pyval \<Rightarrow> exn + pystr"
  edit_error :: "mutation \<Rightarrow> exn option"
  as_dict :: "pyval \<Rightarrow> exn + (pystr \<times> pyval) list"

text \<open>
  A computation on the session returns a value or raises, and leaves the list of the
  edits the runtime has applied so far.
\<close>

type_synonym 'a action = "mutation list \<Rightarrow> (exn + 'a) \<times> mutation list"

definition session_edit :: "env \<Rightarrow> mutation \<Rightarrow> unit action" where
  "session_edit env m edits =
     (case edit_error env m of
        Some e \<Rightarrow> (Inl e, edits)
      | None \<Rightarrow> (Inr (), edits @ [m]))"

section \<open>The forward rewrite (src/milter/processor.py)\<close>

text \<open>
  \<^verbatim>\<open>
  def rewrite_email_address(email: tuple[str, str], domain: str, quote_char: str = "=") -> str:
      address = Address(email[0], quote_email_address(email[1], quote_char), domain)
      return str(address)
  \<close>
  The domain and the quote character come from the configuration, so they are values
  of any kind; \<^verbatim>\<open>"%".replace\<close> raises \<^verbatim>\<open>TypeError\<close> on a quote character that is no string.
\<close>

definition rewrite_email_address ::
  "env \<Rightarrow> pystr \<times> pystr \<Rightarrow> pyval \<Rightarrow> pyval \<Rightarrow> exn + pystr" where
  "rewrite_email_address env email domain quote_char =
     (case quote_char of
        PStr q \<Rightarrow>
          (case quote_email_address (snd email) q of
             Inl e \<Rightarrow> Inl e
           | Inr local_part \<Rightarrow> address_str env (fst email) local_part domain)
      | _ \<Rightarrow> (case quote (snd email) of Inl e \<Rightarrow> Inl e | Inr quoted \<Rightarrow> Inl TypeError))"

text \<open>
  \<^verbatim>\<open>rewrite_forward\<close>, without its logging:
  \<^verbatim>\<open>
  header_from_addresses = [address for address in getaddresses([from_value])]
  from_domains = filter(
      None, [extract_domain(email[1]) for email in header_from_addresses]
  )
  try:
      should_reject = check_all_dmarc_rejections(from_domains)
      if not should_reject:
          return True
      replacement_addresses = [
          rewrite_email_address(
              email,
              get_config_value(services["app_config"], "domain"),
              get_config_value(services["app_config"], "rewrite.quote_char", "="),
          )
          for email in header_from_addresses
      ]
      replacement_from = " " + ", ".join(replacement_addresses)
      new_header = Header("X-Original-From", from_value.encode())
      await session.headers.insert(new_header, END)
      await session.headers.update(from_header, replacement_from.encode())
      return True
  except Exception as e:
      logger.error("Unhandled error: %(reason)s", {"reason": str(e)})
      return False
  \<close>
\<close>

text \<open>The list comprehension over the addresses of the From header.\<close>

fun replacement_addresses :: "env \<Rightarrow> (pystr \<times> pystr) list \<Rightarrow> exn + pystr list" where
  "replacement_addresses env [] = Inr []"
| "replacement_addresses env (email # emails) =
     (case get_config_value (app_config env) (lit ''domain'') PNone of
        Inl e \<Rightarrow> Inl e
      | Inr domain \<Rightarrow>
          (case get_config_value (app_config env) (lit ''rewrite.quote_char'') (PStr (lit ''='')) of
             Inl e \<Rightarrow> Inl e
           | Inr quote_char \<Rightarrow>
               (case rewrite_email_address env email domain quote_char of
                  Inl e \<Rightarrow> Inl e
                | Inr address \<Rightarrow>
                    (case replacement_addresses env emails of
                       Inl e \<Rightarrow> Inl e
                     | Inr addresses \<Rightarrow> Inr (address # addresses)))))"

text \<open>\<^verbatim>\<open>[extract_domain(email[1]) for email in header_from_addresses]\<close>.\<close>

fun extract_domains :: "(pystr \<times> pystr) list \<Rightarrow> exn + pystr option list" where
  "extract_domains [] = Inr []"
| "extract_domains (email # emails) =
     (case extract_domain (snd email) of
        Inl e \<Rightarrow> Inl e
      | Inr d \<Rightarrow> (case extract_domains emails of Inl e \<Rightarrow> Inl e | Inr ds \<Rightarrow> Inr (d # ds)))"

text \<open>\<^verbatim>\<open>filter(None, ...)\<close>: \<^verbatim>\<open>False\<close> and the empty string are dropped.\<close>

fun filter_none :: "pystr option list \<Rightarrow> pystr list" where
  "filter_none [] = []"
| "filter_none (None # ds) = filter_none ds"
| "filter_none (Some d # ds) = (if d = [] then filter_none ds else d # filter_none ds)"

text \<open>The body of the \<^verbatim>\<open>try\<close> statement.\<close>

definition rewrite_forward_try ::
  "env \<Rightarrow> header option \<Rightarrow> pystr \<Rightarrow> (pystr \<times> pystr) list \<Rightarrow> pystr list \<Rightarrow> bool action" where
  "rewrite_forward_try env from_header from_value header_from_addresses from_domains edits =
     (case check_all_dmarc_rejections (get_dmarc_record env) from_domains of
        Inl e \<Rightarrow> (Inl e, edits)
      | Inr should_reject \<Rightarrow>
          if \<not> should_reject then (Inr True, edits)
          else
            (case replacement_addresses env header_from_addresses of
               Inl e \<Rightarrow> (Inl e, edits)
             | Inr addresses \<Rightarrow>
                 (let replacement_from = lit '' '' @ join (lit '', '') addresses in
                  case encode from_value of
                    Inl e \<Rightarrow> (Inl e, edits)
                  | Inr original \<Rightarrow>
                      (case session_edit env
                              (Insert \<lparr>header_name = lit ''X-Original-From'', header_value = original\<rparr> END)
                              edits of
                         (Inl e, edits1) \<Rightarrow> (Inl e, edits1)
                       | (Inr u, edits1) \<Rightarrow>
                           (case encode replacement_from of
                              Inl e \<Rightarrow> (Inl e, edits1)
                            | Inr replacement \<Rightarrow>
                                (case session_edit env (Update from_header replacement) edits1 of
                                   (Inl e, edits2) \<Rightarrow> (Inl e, edits2)
                                 | (Inr u', edits2) \<Rightarrow> (Inr True, edits2)))))))"

definition rewrite_forward :: "env \<Rightarrow> header option \<Rightarrow> pystr \<Rightarrow> bool action" where
  "rewrite_forward env from_header from_value edits =
     (let header_from_addresses = getaddresses env from_value in
      case extract_domains header_from_addresses of
        Inl e \<Rightarrow> (Inl e, edits)
      | Inr domains \<Rightarrow>
          (case rewrite_forward_try env from_header from_value header_from_addresses
                  (filter_none domains) edits of
             (Inl e, edits') \<Rightarrow> (Inr False, edits')
           | (Inr b, edits') \<Rightarrow> (Inr b, edits')))"

section \<open>The reverse rewrite (src/milter/processor.py)\<close>

text \<open>
  \<^verbatim>\<open>
  async def rewrite_reverse(session, from_header, original_from_header, original_from_value) -> bool:
      if not original_from_header or not original_from_value:
          logger.debug("Invalid original from header detected.")
          return False
      await session.headers.delete(original_from_header)
      await session.headers.update(from_header, original_from_value.encode())
      return True
  \<close>
\<close>

definition rewrite_reverse ::
  "env \<Rightarrow> header option \<Rightarrow> header option \<Rightarrow> pystr \<Rightarrow> bool action" where
  "rewrite_reverse env from_header original_from_header original_from_value edits =
     (if original_from_header = None \<or> original_from_value = [] then (Inr False, edits)
      else
        (case session_edit env (Delete original_from_header) edits of
           (Inl e, edits1) \<Rightarrow> (Inl e, edits1)
         | (Inr u, edits1) \<Rightarrow>
             (case encode original_from_value of
                Inl e \<Rightarrow> (Inl e, edits1)
              | Inr original \<Rightarrow>
                  (case session_edit env (Update from_header original) edits1 of
                     (Inl e, edits2) \<Rightarrow> (Inl e, edits2)
                   | (Inr u', edits2) \<Rightarrow> (Inr True, edits2)))))"

section \<open>The handler (src/milter/processor.py)\<close>

text \<open>
  \<^verbatim>\<open>
  async def handle(session: Session) -> Union[Accept, Discard]:
      mail_headers = []
      from_header = None
      original_from_header = None
      async with session.headers as headers:
          async for header in headers:
              header_entry = {
                  "name": header.name,
                  "lower_name": header.name.lower(),
                  "value": header.value.decode(),
              }
              if header_entry["lower_name"] == "from":
                  from_header = header
                  from_value = header_entry["value"]
              elif header_entry["lower_name"] == "x-original-from":
                  original_from_header = header
                  original_from_value = header_entry["value"]
              mail_headers.append(header_entry)
      required_config_entry = get_config_value(
          services["app_config"], "rewrite.require", None
      )
      required_config = (
          {} if not required_config_entry else required_config_entry.as_dict()
      )
      if not check_required_headers(required_config, mail_headers):
          return Accept()
      if original_from_header and get_config_value(
          services["app_config"], "rewrite.reverse", True
      ):
          await rewrite_reverse(
              session, from_header, original_from_header, original_from_value
          )
      elif get_config_value(services["app_config"], "rewrite.forward", True):
          await rewrite_forward(session, from_header, from_value)
      return Accept()
  \<close>
\<close>

text \<open>
  The local variables of \<^verbatim>\<open>handle\<close> after the loop over the headers. \<^verbatim>\<open>from_header\<close> and
  \<^verbatim>\<open>original_from_header\<close> start as \<^verbatim>\<open>None\<close>; \<^verbatim>\<open>from_value\<close> and \<^verbatim>\<open>original_from_value\<close> are
  bound only by the loop, so \<open>None\<close> there stands for a variable that is still unbound.
\<close>

record locals =
  mail_headers :: "header_entry list"
  from_header :: "header option"
  from_value :: "pystr option"
  original_from_header :: "header option"
  original_from_value :: "pystr option"

definition initial_locals :: locals where
  "initial_locals =
     \<lparr>mail_headers = [], from_header = None, from_value = None,
      original_from_header = None, original_from_value = None\<rparr>"

fun capture :: "header list \<Rightarrow> locals \<Rightarrow> exn + locals" where
  "capture [] vars = Inr vars"
| "capture (h # headers) vars =
     (case decode (header_value h) of
        Inl e \<Rightarrow> Inl e
      | Inr v \<Rightarrow>
          (let header_entry =
                 \<lparr>entry_name = header_name h, entry_lower_name = lower (header_name h),
                  entry_value = v\<rparr>;
               vars' =
                 (if entry_lower_name header_entry = lit ''from''
                  then vars\<lparr>from_header := Some h, from_value := Some (entry_value header_entry)\<rparr>
                  else if entry_lower_name header_entry = lit ''x-original-from''
                  then vars\<lparr>original_from_header := Some h,
                            original_from_value := Some (entry_value header_entry)\<rparr>
                  else vars)
           in capture headers (vars'\<lparr>mail_headers := mail_headers vars' @ [header_entry]\<rparr>)))"

text \<open>Reading a local variable that may be unbound.\<close>

definition read_local :: "'a option \<Rightarrow> exn + 'a" where
  "read_local v = (case v of None \<Rightarrow> Inl UnboundLocalError | Some x \<Rightarrow> Inr x)"

datatype verdict = Accept | Discard

text \<open>
  The two branches that follow the check of the required headers; a header object counts
  as true, \<^verbatim>\<open>None\<close> as false.
\<close>

definition rewrite_dispatch :: "env \<Rightarrow> locals \<Rightarrow> verdict action" where
  "rewrite_dispatch env vars edits =
     (case (if original_from_header vars = None then Inr PNone
            else get_config_value (app_config env) (lit ''rewrite.reverse'') (PBool True)) of
        Inl e \<Rightarrow> (Inl e, edits)
      | Inr reverse \<Rightarrow>
          if truthy reverse then
            (case read_local (original_from_value vars) of
               Inl e \<Rightarrow> (Inl e, edits)
             | Inr value \<Rightarrow>
                 (case rewrite_reverse env (from_header vars) (original_from_header vars) value edits of
                    (Inl e, edits') \<Rightarrow> (Inl e, edits')
                  | (Inr b, edits') \<Rightarrow> (Inr Accept, edits')))
          else
            (case get_config_value (app_config env) (lit ''rewrite.forward'') (PBool True) of
               Inl e \<Rightarrow> (Inl e, edits)
             | Inr forward \<Rightarrow>
                 if truthy forward then
                   (case read_local (from_value vars) of
                      Inl e \<Rightarrow> (Inl e, edits)
                    | Inr value \<Rightarrow>
                        (case rewrite_forward env (from_header vars) value edits of
                           (Inl e, edits') \<Rightarrow> (Inl e, edits')
                         | (Inr b, edits') \<Rightarrow> (Inr Accept, edits')))
                 else (Inr Accept, edits)))"

text \<open>
  \<^verbatim>\<open>handle\<close> on the headers of the session: what it returns or raises, and the edits the
  runtime has applied.
\<close>

definition handle :: "env \<Rightarrow> header list \<Rightarrow> (exn + verdict) \<times> mutation list" where
  "handle env headers =
     (case capture headers initial_locals of
        Inl e \<Rightarrow> (Inl e, [])
      | Inr vars \<Rightarrow>
          (case get_config_value (app_config env) (lit ''rewrite.require'') PNone of
             Inl e \<Rightarrow> (Inl e, [])
           | Inr required_config_entry \<Rightarrow>
               (case (if truthy required_config_entry then as_dict env required_config_entry
                      else Inr []) of
                  Inl e \<Rightarrow> (Inl e, [])
                | Inr required_config \<Rightarrow>
                    (case check_required_headers required_config (mail_headers vars) of
                       Inl e \<Rightarrow> (Inl e, [])
                     | Inr satisfied \<Rightarrow>
                         if \<not> satisfied then (Inr Accept, [])
                         else rewrite_dispatch env vars []))))"

section \<open>Example data\<close>

text \<open>The records and the header of the repository's tests.\<close>

definition reject_dmarc_record :: dmarc_record where
  "reject_dmarc_record =
     \<lparr>location = lit ''example.com'',
      tags = [(lit ''p'', lit ''reject''), (lit ''sp'', lit ''quarantine'')]\<rparr>"

definition mixed_dmarc_record :: dmarc_record where
  "mixed_dmarc_record =
     \<lparr>location = lit ''example.com'',
      tags = [(lit ''p'', lit ''quarantine''), (lit ''sp'', lit ''none'')]\<rparr>"

text \<open>A record that publishes \<^verbatim>\<open>p\<close> and no \<^verbatim>\<open>sp\<close>.\<close>

definition no_sp_dmarc_record :: dmarc_record where
  "no_sp_dmarc_record = \<lparr>location = lit ''example.com'', tags = [(lit ''p'', lit ''reject'')]\<rparr>"

text \<open>
  An oracle that answers with the record without \<^verbatim>\<open>sp\<close> for one subdomain and with the
  mixed record for every other domain.
\<close>

definition partial_oracle :: "pystr \<Rightarrow> exn + dmarc_record" where
  "partial_oracle d =
     (if d = lit ''x.example.com'' then Inr no_sp_dmarc_record else Inr mixed_dmarc_record)"

definition some_header :: header_entry where
  "some_header =
     \<lparr>entry_name = lit ''X-Some-Header'', entry_lower_name = lit ''x-some-header'',
      entry_value = lit '' Some Value''\<rparr>"

text \<open>
  A session environment for the examples: a configuration that sets the rewrite domain
  only, an oracle that answers with the rejecting record, the addresses and the address
  text of the standard library on the From values used below, a runtime that applies
  every edit, and configuration entries that are plain dictionaries, without \<^verbatim>\<open>as_dict\<close>.
\<close>

definition example_config :: "pyval config" where
  "example_config k =
     (if k = lit ''domain'' then Inr (PStr (lit ''dmarc.example.com'')) else Inl ConfigError)"

definition example_getaddresses :: "pystr \<Rightarrow> (pystr \<times> pystr) list" where
  "example_getaddresses v =
     (if v = lit ''Some One <someone@example.com>'' then [(lit ''Some One'', lit ''someone@example.com'')]
      else if v = lit ''undisclosed'' then [([], lit ''undisclosed'')]
      else [])"

text \<open>
  The text of an address whose display name and local part need no quoting. A domain
  that counts as false (\<^verbatim>\<open>None\<close>, the empty string) is left out; another value that is no
  string raises \<^verbatim>\<open>TypeError\<close>.
\<close>

definition example_address_str :: "pystr \<Rightarrow> pystr \<Rightarrow> pyval \<Rightarrow> exn + pystr" where
  "example_address_str display_name username domain =
     (case (if truthy domain
            then (case domain of PStr d \<Rightarrow> Inr (username @ lit ''@'' @ d) | _ \<Rightarrow> Inl TypeError)
            else Inr (if username = [] then lit ''<>'' else username)) of
        Inl e \<Rightarrow> Inl e
      | Inr addr_spec \<Rightarrow>
          Inr (if display_name = [] then addr_spec
               else display_name @ lit '' <''
                      @ (if addr_spec = lit ''<>'' then [] else addr_spec) @ lit ''>''))"

definition example_env :: env where
  "example_env =
     \<lparr>app_config = example_config,
      get_dmarc_record = (\<lambda>d. Inr reject_dmarc_record),
      getaddresses = example_getaddresses,
      address_str = example_address_str,
      edit_error = (\<lambda>m. None),
      as_dict = (\<lambda>entry. Inl AttributeError)\<rparr>"

text \<open>The same with a runtime that raises when the header to update is \<^verbatim>\<open>None\<close>.\<close>

definition strict_env :: env where
  "strict_env =
     example_env\<lparr>edit_error := (\<lambda>m. case m of Update None v \<Rightarrow> Some OtherError | _ \<Rightarrow> None)\<rparr>"

definition subject_header :: header where
  "subject_header = \<lparr>header_name = lit ''Subject'', header_value = lit ''Hello''\<rparr>"

definition from_header_example :: header where
  "from_header_example = \<lparr>header_name = lit ''From'', header_value = lit ''Some One <someone@example.com>''\<rparr>"

definition original_from_header_example :: header where
  "original_from_header_example =
     \<lparr>header_name = lit ''X-Original-From'', header_value = lit ''Some One <someone@example.com>''\<rparr>"

definition empty_original_from :: header where
  "empty_original_from = \<lparr>header_name = lit ''X-Original-From'', header_value = []\<rparr>"

definition example_locals :: locals where
  "example_locals =
     \<lparr>mail_headers =
        [\<lparr>entry_name = lit ''From'', entry_lower_name = lit ''from'',
          entry_value = lit ''Some One <someone@example.com>''\<rparr>,
         \<lparr>entry_name = lit ''X-Original-From'', entry_lower_name = lit ''x-original-from'',
          entry_value = []\<rparr>],
      from_header = Some from_header_example,
      from_value = Some (lit ''Some One <someone@example.com>''),
      original_from_header = Some empty_original_from,
      original_from_value = Some []\<rparr>"

definition undisclosed_header :: header where
  "undisclosed_header = \<lparr>header_name = lit ''From'', header_value = lit ''undisclosed''\<rparr>"

text \<open>
  The tag that decides for a domain, in the words of the specification: \<^verbatim>\<open>p\<close> when the
  domain is the record's location, \<^verbatim>\<open>sp\<close> otherwise.
\<close>

definition governing_tag :: "dmarc_record \<Rightarrow> pystr \<Rightarrow> pystr" where
  "governing_tag r domain = (if location r = domain then lit ''p'' else lit ''sp'')"

section \<open>Configuration lookup: properties\<close>

lemma lit_simps [simp]: "lit [] = []" "lit (c # cs) = of_char c # lit cs"
  by (simp_all add: lit_def)

text \<open>
  C8. \<open>get_config_value cfg key default\<close> is \<open>cfg[key]\<close> when that lookup yields a value;
  otherwise, the key being absent, the value at \<open>"dmarc." + key\<close> when that one is present;
  otherwise, both being absent, the default. No exception escapes in any of the three cases.
\<close>

theorem get_config_value_resolution:
  "(cfg key = Inr v \<longrightarrow> get_config_value cfg key d = Inr v) \<and>
   (absent (cfg key) \<and> cfg (lit ''dmarc.'' @ key) = Inr v \<longrightarrow> get_config_value cfg key d = Inr v) \<and>
   (absent (cfg key) \<and> absent (cfg (lit ''dmarc.'' @ key)) \<longrightarrow> get_config_value cfg key d = Inr d)"
  by (auto simp: get_config_value_def absent_def legacy_key_def)

theorem get_config_value_resolution_witness:
  "(test_config (lit ''toplevel'') = Inr (PStr (lit ''toplevel'')) \<and>
      get_config_value test_config (lit ''toplevel'') PNone = Inr (PStr (lit ''toplevel''))) \<and>
   (absent (test_config (lit ''subkey'')) \<and>
      test_config (lit ''dmarc.'' @ lit ''subkey'') = Inr (PStr (lit ''subkey'')) \<and>
      get_config_value test_config (lit ''subkey'') PNone = Inr (PStr (lit ''subkey''))) \<and>
   (absent (test_config (lit ''nosuchkey'')) \<and>
      absent (test_config (lit ''dmarc.'' @ lit ''nosuchkey'')) \<and>
      get_config_value test_config (lit ''nosuchkey'') (PStr (lit ''default''))
        = Inr (PStr (lit ''default'')))"
proof -
  have a: "test_config (lit ''toplevel'') = Inr (PStr (lit ''toplevel''))"
    by (simp add: test_config_def)
  have b: "absent (test_config (lit ''subkey''))"
    "test_config (lit ''dmarc.'' @ lit ''subkey'') = Inr (PStr (lit ''subkey''))"
    by (simp_all add: test_config_def absent_def)
  have c: "absent (test_config (lit ''nosuchkey''))"
    "absent (test_config (lit ''dmarc.'' @ lit ''nosuchkey''))"
    by (simp_all add: test_config_def absent_def)
  from a b c
    get_config_value_resolution [of test_config "lit ''toplevel''" "PStr (lit ''toplevel'')" PNone]
    get_config_value_resolution [of test_config "lit ''subkey''" "PStr (lit ''subkey'')" PNone]
    get_config_value_resolution [of test_config "lit ''nosuchkey''" PNone "PStr (lit ''default'')"]
  show ?thesis by blast
qed

section \<open>The required headers: properties\<close>

lemma check_headers_loop_dict:
  "check_headers_loop (PDict reqs) headers =
     Inr (\<exists>h \<in> set headers. \<exists>r. map_of reqs (entry_name h) = Some r \<and>
            requirement_met r (strip (entry_value h)))"
  by (induction headers) (auto split: option.splits)

text \<open>
  C6. Without a \<^verbatim>\<open>header\<close> entry in the configuration the result is true. With a mapping
  there, the result is true exactly when some captured header's name, as it is written, has
  a requirement that the header's stripped value meets: \<^verbatim>\<open>True\<close> is met by every value,
  a string by the equal value, a list by a value that is one of its members. So it is
  false when no header meets its requirement, and for a message without headers.
\<close>

theorem check_required_headers_satisfied:
  "(map_of required_config (lit ''header'') = None \<longrightarrow>
      check_required_headers required_config headers = Inr True) \<and>
   (map_of required_config (lit ''header'') = Some (PDict reqs) \<longrightarrow>
      check_required_headers required_config headers =
        Inr (\<exists>h \<in> set headers. \<exists>r. map_of reqs (entry_name h) = Some r \<and>
               requirement_met r (strip (entry_value h)))) \<and>
   requirement_met (PBool True) v \<and>
   (requirement_met (PStr s) v \<longleftrightarrow> v = s) \<and>
   (requirement_met (PList l) v \<longleftrightarrow> PStr v \<in> set l)"
  by (simp add: check_required_headers_def check_headers_loop_dict)

theorem check_required_headers_satisfied_witness:
  "check_required_headers [] [] = Inr True \<and>
   check_required_headers [(lit ''header'', PDict [(lit ''X-Some-Header'', PStr (lit ''Some Value''))])]
     [some_header] = Inr True \<and>
   check_required_headers [(lit ''header'', PDict [(lit ''X-Some-Header'', PStr (lit ''A Value''))])]
     [some_header] = Inr False \<and>
   check_required_headers [(lit ''header'', PDict [(lit ''X-Some-Header'', PBool True)])] [] = Inr False"
  using
    check_required_headers_satisfied [of "[]" "[]"]
    check_required_headers_satisfied [of "[(lit ''header'', PDict [(lit ''X-Some-Header'', PStr (lit ''Some Value''))])]"
      "[some_header]" "[(lit ''X-Some-Header'', PStr (lit ''Some Value''))]"]
    check_required_headers_satisfied [of "[(lit ''header'', PDict [(lit ''X-Some-Header'', PStr (lit ''A Value''))])]"
      "[some_header]" "[(lit ''X-Some-Header'', PStr (lit ''A Value''))]"]
    check_required_headers_satisfied [of "[(lit ''header'', PDict [(lit ''X-Some-Header'', PBool True)])]"
      "[]" "[(lit ''X-Some-Header'', PBool True)]"]
  by (simp add: some_header_def strip_def isspace_def)

section \<open>The DMARC evaluation: properties\<close>

text \<open>
  C3, as the code has it. When the oracle returns a record that carries the governing tag,
  the result is true exactly when that tag's value is \<^verbatim>\<open>reject\<close> or \<^verbatim>\<open>quarantine\<close>; when
  the oracle raises a DMARC error, the result is false and nothing is raised.
\<close>

theorem check_dmarc_rejection_governing_tag:
  "(oracle domain = Inr r \<and> map_of (tags r) (governing_tag r domain) = Some v \<longrightarrow>
      check_dmarc_rejection oracle domain = Inr (v = lit ''reject'' \<or> v = lit ''quarantine'')) \<and>
   (oracle domain = Inl DMARCError \<longrightarrow> check_dmarc_rejection oracle domain = Inr False)"
  by (auto simp: check_dmarc_rejection_def governing_tag_def tag_in_no_mail_values_def
      no_mail_values_def Let_def split: if_splits bool.splits)

theorem check_dmarc_rejection_governing_tag_witness:
  "((\<lambda>d. Inr reject_dmarc_record) (lit ''somewhere.example.com'') = Inr reject_dmarc_record \<and>
    map_of (tags reject_dmarc_record) (governing_tag reject_dmarc_record (lit ''somewhere.example.com''))
      = Some (lit ''quarantine'') \<and>
    check_dmarc_rejection (\<lambda>d. Inr reject_dmarc_record) (lit ''somewhere.example.com'') = Inr True) \<and>
   ((\<lambda>d. Inl DMARCError :: exn + dmarc_record) (lit ''example.com'') = Inl DMARCError \<and>
    check_dmarc_rejection (\<lambda>d. Inl DMARCError) (lit ''example.com'') = Inr False)"
proof -
  have a: "map_of (tags reject_dmarc_record)
             (governing_tag reject_dmarc_record (lit ''somewhere.example.com'')) = Some (lit ''quarantine'')"
    by (simp add: reject_dmarc_record_def governing_tag_def)
  from a
    check_dmarc_rejection_governing_tag [of "\<lambda>d. Inr reject_dmarc_record" "lit ''somewhere.example.com''"
      reject_dmarc_record "lit ''quarantine''"]
    check_dmarc_rejection_governing_tag [of "\<lambda>d. Inl DMARCError" "lit ''example.com''"]
  show ?thesis by simp
qed

text \<open>
  C3 as it is written fails on a record without the governing tag: for a subdomain of a
  domain that publishes \<^verbatim>\<open>p\<close> only, the lookup of \<^verbatim>\<open>sp\<close> raises \<^verbatim>\<open>KeyError\<close>, which the
  handler for DMARC errors does not catch.
\<close>

theorem check_dmarc_rejection_missing_tag_counterexample:
  "check_dmarc_rejection (\<lambda>d. Inr no_sp_dmarc_record) (lit ''somewhere.example.com'') = Inl KeyError"
  by (simp add: check_dmarc_rejection_def no_sp_dmarc_record_def tag_in_no_mail_values_def)

lemma check_all_True_iff:
  "check_all_dmarc_rejections oracle domains = Inr True \<longleftrightarrow>
     (\<forall>d \<in> set domains. check_dmarc_rejection oracle d = Inr True)"
  by (induction domains) (auto split: sum.splits bool.splits)

lemma check_all_short_circuit:
  "\<forall>d \<in> set before. check_dmarc_rejection oracle d = Inr True \<Longrightarrow>
   check_dmarc_rejection oracle domain = Inr False \<Longrightarrow>
   check_all_dmarc_rejections oracle (before @ domain # after) = Inr False"
  by (induction before) (auto split: sum.splits bool.splits)

lemma check_all_total:
  "\<forall>d \<in> set domains. \<exists>b. check_dmarc_rejection oracle d = Inr b \<Longrightarrow>
   check_all_dmarc_rejections oracle domains =
     Inr (\<forall>d \<in> set domains. check_dmarc_rejection oracle d = Inr True)"
  by (induction domains) (auto split: sum.splits bool.splits)

text \<open>
  C4, as the code has it. The aggregate is true exactly when every domain of the sequence
  evaluates to true. It is false as soon as a domain evaluates to false after domains
  that all evaluated to true, whatever follows that domain; and when every domain
  evaluates to a boolean, the aggregate is the conjunction, so one domain that does not
  reject makes it false.
\<close>

theorem check_all_dmarc_rejections_all:
  "(check_all_dmarc_rejections oracle domains = Inr True \<longleftrightarrow>
      (\<forall>d \<in> set domains. check_dmarc_rejection oracle d = Inr True)) \<and>
   ((\<forall>d \<in> set before. check_dmarc_rejection oracle d = Inr True) \<and>
    check_dmarc_rejection oracle domain = Inr False \<longrightarrow>
      check_all_dmarc_rejections oracle (before @ domain # after) = Inr False) \<and>
   ((\<forall>d \<in> set domains. \<exists>b. check_dmarc_rejection oracle d = Inr b) \<longrightarrow>
      check_all_dmarc_rejections oracle domains =
        Inr (\<forall>d \<in> set domains. check_dmarc_rejection oracle d = Inr True))"
  using check_all_True_iff check_all_short_circuit check_all_total by blast

lemma check_reject_record:
  "check_dmarc_rejection (\<lambda>d. Inr reject_dmarc_record) (lit ''example.com'') = Inr True"
  "check_dmarc_rejection (\<lambda>d. Inr reject_dmarc_record) (lit ''somewhere.example.com'') = Inr True"
  by (simp_all add: check_dmarc_rejection_def reject_dmarc_record_def tag_in_no_mail_values_def
      no_mail_values_def)

lemma check_mixed_record:
  "check_dmarc_rejection (\<lambda>d. Inr mixed_dmarc_record) (lit ''example.com'') = Inr True"
  "check_dmarc_rejection (\<lambda>d. Inr mixed_dmarc_record) (lit ''somewhere.example.com'') = Inr False"
  by (simp_all add: check_dmarc_rejection_def mixed_dmarc_record_def tag_in_no_mail_values_def
      no_mail_values_def)

theorem check_all_dmarc_rejections_all_witness:
  "check_all_dmarc_rejections (\<lambda>d. Inr reject_dmarc_record)
     [lit ''example.com'', lit ''somewhere.example.com''] = Inr True \<and>
   check_all_dmarc_rejections (\<lambda>d. Inr mixed_dmarc_record)
     ([lit ''example.com''] @ lit ''somewhere.example.com'' # [lit ''example.com'']) = Inr False \<and>
   check_all_dmarc_rejections (\<lambda>d. Inr mixed_dmarc_record)
     [lit ''example.com'', lit ''somewhere.example.com''] = Inr False"
proof -
  have r: "\<forall>d \<in> set [lit ''example.com'', lit ''somewhere.example.com''].
             check_dmarc_rejection (\<lambda>d. Inr reject_dmarc_record) d = Inr True"
    using check_reject_record by simp
  have m1: "\<forall>d \<in> set [lit ''example.com''].
              check_dmarc_rejection (\<lambda>d. Inr mixed_dmarc_record) d = Inr True"
    using check_mixed_record by simp
  have m2: "\<forall>d \<in> set [lit ''example.com'', lit ''somewhere.example.com''].
              \<exists>b. check_dmarc_rejection (\<lambda>d. Inr mixed_dmarc_record) d = Inr b"
    using check_mixed_record by auto
  have m3: "\<not> (\<forall>d \<in> set [lit ''example.com'', lit ''somewhere.example.com''].
              check_dmarc_rejection (\<lambda>d. Inr mixed_dmarc_record) d = Inr True)"
    using check_mixed_record by simp
  have a: "check_all_dmarc_rejections (\<lambda>d. Inr reject_dmarc_record)
             [lit ''example.com'', lit ''somewhere.example.com''] = Inr True"
    using r check_all_dmarc_rejections_all
      [of "\<lambda>d. Inr reject_dmarc_record" "[lit ''example.com'', lit ''somewhere.example.com'']"]
    by blast
  have b: "check_all_dmarc_rejections (\<lambda>d. Inr mixed_dmarc_record)
             ([lit ''example.com''] @ lit ''somewhere.example.com'' # [lit ''example.com'']) = Inr False"
    using m1 check_mixed_record(2) check_all_dmarc_rejections_all
      [of "\<lambda>d. Inr mixed_dmarc_record" _ "[lit ''example.com'']" "lit ''somewhere.example.com''"
        "[lit ''example.com'']"]
    by blast
  have c: "check_all_dmarc_rejections (\<lambda>d. Inr mixed_dmarc_record)
             [lit ''example.com'', lit ''somewhere.example.com''] = Inr False"
    using m2 m3 check_all_dmarc_rejections_all
      [of "\<lambda>d. Inr mixed_dmarc_record" "[lit ''example.com'', lit ''somewhere.example.com'']"]
    by simp
  from a b c show ?thesis by blast
qed

text \<open>
  C4 as it is written fails when the evaluation of an earlier domain raises: the second
  domain alone evaluates to false, but the aggregate is not false, since the \<^verbatim>\<open>KeyError\<close> of
  the first domain leaves the loop before the second is looked at.
\<close>

theorem check_all_dmarc_rejections_raises_counterexample:
  "check_dmarc_rejection partial_oracle (lit ''somewhere.example.com'') = Inr False \<and>
   check_all_dmarc_rejections partial_oracle [lit ''x.example.com'', lit ''somewhere.example.com'']
     = Inl KeyError \<and>
   check_all_dmarc_rejections partial_oracle [lit ''x.example.com'', lit ''somewhere.example.com'']
     \<noteq> Inr False"
  by (simp add: partial_oracle_def check_dmarc_rejection_def no_sp_dmarc_record_def
      mixed_dmarc_record_def tag_in_no_mail_values_def no_mail_values_def)

section \<open>The parts of an address: properties\<close>

lemma split_nonempty: "split s sep n \<noteq> []"
  by (induction s sep n rule: split.induct) (auto simp: Let_def)

lemma hd_split: "hd (split s sep (Suc n)) = takeWhile (\<lambda>c. c \<noteq> sep) s"
  by (induction s) (auto simp: Let_def)

lemma hd_split0: "hd (split s sep 0) = s"
  by (induction s) (auto simp: Let_def)

lemma split_at_first:
  "sep \<in> set s \<Longrightarrow>
   split s sep (Suc n) = takeWhile (\<lambda>c. c \<noteq> sep) s # split (tl (dropWhile (\<lambda>c. c \<noteq> sep) s)) sep n"
proof (induction s)
  case Nil
  then show ?case by simp
next
  case (Cons c cs)
  show ?case
  proof (cases "c = sep")
    case True
    then show ?thesis by simp
  next
    case False
    with Cons show ?thesis by (simp add: Let_def)
  qed
qed

text \<open>The local part is what stands before the first \<^verbatim>\<open>@\<close>, or the whole string.\<close>

lemma extract_localpart_first: "extract_localpart s = Inr (takeWhile (\<lambda>c. c \<noteq> 64) s)"
proof (cases "64 \<in> set s")
  case True
  have "split s 64 2 \<noteq> []" by (rule split_nonempty)
  then have "index (split s 64 2) 0 = Inr (hd (split s 64 2))"
    by (cases "split s 64 2") (simp_all add: index_def)
  with True show ?thesis
    using hd_split [of s 64 1] by (simp add: extract_localpart_def numeral_2_eq_2)
next
  case False
  then have tw: "takeWhile (\<lambda>c. c \<noteq> 64) s = s"
    by (auto simp: takeWhile_eq_all_conv)
  show ?thesis unfolding extract_localpart_def tw using False by simp
qed

text \<open>
  The domain is what stands between the first \<^verbatim>\<open>@\<close> and the second, or the end of the
  string when there is no second: \<^verbatim>\<open>split("@", 2)\<close> cuts twice.
\<close>

lemma extract_domain_between:
  assumes "64 \<in> set s"
  shows "extract_domain s = Inr (Some (takeWhile (\<lambda>c. c \<noteq> 64) (tl (dropWhile (\<lambda>c. c \<noteq> 64) s))))"
proof -
  let ?rest = "tl (dropWhile (\<lambda>c. c \<noteq> 64) s)"
  have s: "split s 64 2 = takeWhile (\<lambda>c. c \<noteq> 64) s # split ?rest 64 1"
    using split_at_first [OF assms, of 1] by (simp add: numeral_2_eq_2)
  have ne: "split ?rest 64 1 \<noteq> []" by (rule split_nonempty)
  have "index (split s 64 2) 1 = Inr (hd (split ?rest 64 1))"
    using ne by (cases "split ?rest 64 1") (simp_all add: s index_def)
  then show ?thesis
    using assms hd_split [of ?rest 64 0] by (simp add: extract_domain_def)
qed

lemma extract_domain_no_at: "64 \<notin> set s \<Longrightarrow> extract_domain s = Inr None"
  by (simp add: extract_domain_def)

text \<open>
  C9 on an address with two \<^verbatim>\<open>@\<close>: the local part is the text before the first one, the
  domain is \<^verbatim>\<open>b\<close>, the text between the two, and not \<^verbatim>\<open>b@c\<close>, all that follows the first.
  The same on an address whose quoted local part holds an \<^verbatim>\<open>@\<close> (character 34 is the
  double quote): the domain found is the end of the local part, not \<^verbatim>\<open>example.com\<close>.
\<close>

theorem extract_domain_two_ats:
  "extract_domain (lit ''a@b@c'') = Inr (Some (lit ''b'')) \<and>
   extract_localpart (lit ''a@b@c'') = Inr (lit ''a'') \<and>
   extract_domain (34 # lit ''a@b'' @ 34 # lit ''@example.com'') = Inr (Some (lit ''b'' @ [34]))"
  by (simp add: extract_domain_def extract_localpart_def index_def Let_def)

section \<open>The handler: properties\<close>

lemma rewrite_reverse_guard:
  "ofh = None \<or> ofv = [] \<Longrightarrow> rewrite_reverse env fh ofh ofv edits = (Inr False, edits)"
  by (simp add: rewrite_reverse_def)

text \<open>
  The half of the guard that works. In the reverse branch, when the value of the
  X-Original-From header is empty, no edit is made and the message is accepted: for the
  two branches after the check of the required headers, and for the whole handler when
  that check evaluates.
\<close>

lemma reverse_without_original_value:
  "(original_from_header vars = Some h \<and> original_from_value vars = Some [] \<and>
    get_config_value (app_config env) (lit ''rewrite.reverse'') (PBool True) = Inr r \<and> truthy r \<longrightarrow>
      rewrite_dispatch env vars edits = (Inr Accept, edits)) \<and>
   (capture headers initial_locals = Inr vars \<and>
    get_config_value (app_config env) (lit ''rewrite.require'') PNone = Inr entry \<and>
    (if truthy entry then as_dict env entry else Inr []) = Inr required_config \<and>
    check_required_headers required_config (mail_headers vars) = Inr satisfied \<and>
    original_from_header vars = Some h \<and> original_from_value vars = Some [] \<and>
    get_config_value (app_config env) (lit ''rewrite.reverse'') (PBool True) = Inr r \<and> truthy r \<longrightarrow>
      handle env headers = (Inr Accept, []))"
  by (auto simp: rewrite_dispatch_def handle_def read_local_def rewrite_reverse_guard)

lemma capture_empty_original_from:
  "capture [from_header_example, empty_original_from] initial_locals = Inr example_locals"
  by code_simp

lemma example_reverse_enabled:
  "get_config_value (app_config example_env) (lit ''rewrite.reverse'') (PBool True) = Inr (PBool True)"
  "get_config_value (app_config example_env) (lit ''rewrite.require'') PNone = Inr PNone"
  by code_simp+

lemma reverse_without_original_value_example:
  "handle example_env [from_header_example, empty_original_from] = (Inr Accept, []) \<and>
   rewrite_dispatch example_env example_locals [] = (Inr Accept, [])"
proof -
  have o: "original_from_header example_locals = Some empty_original_from"
    "original_from_value example_locals = Some []"
    by (simp_all add: example_locals_def)
  have t: "truthy (PBool True)" by simp
  have g: "(if truthy PNone then as_dict example_env PNone else Inr []) = Inr []"
    "check_required_headers [] (mail_headers example_locals) = Inr True"
    by (simp_all add: check_required_headers_def)
  from reverse_without_original_value
      [of example_locals empty_original_from example_env "PBool True" "[]"
        "[from_header_example, empty_original_from]" PNone "[]" True]
    capture_empty_original_from example_reverse_enabled o t g
  show ?thesis by blast
qed

text \<open>
  C5 on a message with an X-Original-From header and no From header. The guard of
  \<^verbatim>\<open>rewrite_reverse\<close> tests \<^verbatim>\<open>original_from_header\<close>, which \<^verbatim>\<open>handle\<close> has tested already, and
  not \<^verbatim>\<open>from_header\<close>, which is still \<^verbatim>\<open>None\<close>. So the X-Original-From header is deleted and
  an update is sent for the header \<^verbatim>\<open>None\<close>, where the claim has no edit at all. With a
  runtime that raises on such an update, the deletion has been applied all the same, and
  the exception leaves the handler instead of the message being accepted.
\<close>

theorem reverse_without_from_header:
  "handle example_env [original_from_header_example] =
     (Inr Accept,
      [Delete (Some original_from_header_example),
       Update None (lit ''Some One <someone@example.com>'')]) \<and>
   handle strict_env [original_from_header_example] =
     (Inl OtherError, [Delete (Some original_from_header_example)])"
  by code_simp

text \<open>
  C2 on a message without a From header and without an X-Original-From header, in the
  forward branch: \<^verbatim>\<open>from_value\<close> was never bound, and reading it for the call of
  \<^verbatim>\<open>rewrite_forward\<close> raises \<^verbatim>\<open>UnboundLocalError\<close> in \<^verbatim>\<open>handle\<close> itself, outside every handler.
  In the reverse branch, which has no handler at all, an exception of the runtime leaves
  \<^verbatim>\<open>handle\<close> as well.
\<close>

theorem handle_raises_without_from:
  "handle example_env [subject_header] = (Inl UnboundLocalError, []) \<and>
   handle (example_env\<lparr>edit_error := (\<lambda>m. Some OtherError)\<rparr>)
     [from_header_example, original_from_header_example] = (Inl OtherError, [])"
  by code_simp

section \<open>The forward rewrite: properties\<close>

text \<open>
  The forward rewrite itself raises nothing: whatever is raised inside its \<^verbatim>\<open>try\<close> statement
  ends in the result \<^verbatim>\<open>False\<close>. (The reverse rewrite has no such statement, and the read of
  \<^verbatim>\<open>from_value\<close> for the call happens before the forward rewrite is entered.)
\<close>

lemma extract_domain_returns: "\<exists>d. extract_domain s = Inr d"
  using extract_domain_between [of s] extract_domain_no_at [of s] by (cases "64 \<in> set s") auto

lemma extract_domains_returns: "\<exists>ds. extract_domains emails = Inr ds"
proof (induction emails)
  case Nil
  then show ?case by simp
next
  case (Cons email emails)
  then obtain ds where "extract_domains emails = Inr ds" by blast
  moreover obtain d where "extract_domain (snd email) = Inr d"
    using extract_domain_returns by blast
  ultimately show ?case by simp
qed

lemma rewrite_forward_returns: "\<exists>b edits'. rewrite_forward env fh v edits = (Inr b, edits')"
proof -
  obtain ds where "extract_domains (getaddresses env v) = Inr ds"
    using extract_domains_returns by blast
  then show ?thesis
    by (auto simp: rewrite_forward_def Let_def split: prod.splits sum.splits)
qed

lemma filter_none_no_at:
  "\<forall>email \<in> set emails. 64 \<notin> set (snd email) \<Longrightarrow>
   \<exists>ds. extract_domains emails = Inr ds \<and> filter_none ds = []"
  by (induction emails) (auto simp: extract_domain_def)

lemma rewrite_email_address_oracle:
  "rewrite_email_address (env\<lparr>get_dmarc_record := oracle\<rparr>) email domain quote_char =
   rewrite_email_address env email domain quote_char"
  by (simp add: rewrite_email_address_def split: pyval.splits sum.splits)

lemma replacement_addresses_oracle:
  "replacement_addresses (env\<lparr>get_dmarc_record := oracle\<rparr>) emails = replacement_addresses env emails"
  by (induction emails) (simp_all add: rewrite_email_address_oracle cong: sum.case_cong)

text \<open>
  C10. On no domain at all the aggregate is true. So when no address of the From value
  holds an \<^verbatim>\<open>@\<close>, the forward rewrite inserts X-Original-From with the original value and
  updates From with the replacement addresses (given that these can be built and encoded
  and that the runtime applies the two edits), whatever the oracle is: it is not asked.
\<close>

theorem forward_without_domains:
  "check_all_dmarc_rejections oracle [] = Inr True \<and>
   ((\<forall>email \<in> set (getaddresses env v). 64 \<notin> set (snd email)) \<and>
    replacement_addresses env (getaddresses env v) = Inr addresses \<and>
    encode v = Inr original \<and>
    encode (lit '' '' @ join (lit '', '') addresses) = Inr replacement \<and>
    edit_error env (Insert \<lparr>header_name = lit ''X-Original-From'', header_value = original\<rparr> END) = None \<and>
    edit_error env (Update fh replacement) = None \<longrightarrow>
      rewrite_forward (env\<lparr>get_dmarc_record := oracle\<rparr>) fh v edits =
        (Inr True,
         edits @ [Insert \<lparr>header_name = lit ''X-Original-From'', header_value = original\<rparr> END,
                  Update fh replacement]))"
proof (intro conjI impI)
  show "check_all_dmarc_rejections oracle [] = Inr True" by simp
next
  assume a: "(\<forall>email \<in> set (getaddresses env v). 64 \<notin> set (snd email)) \<and>
    replacement_addresses env (getaddresses env v) = Inr addresses \<and>
    encode v = Inr original \<and>
    encode (lit '' '' @ join (lit '', '') addresses) = Inr replacement \<and>
    edit_error env (Insert \<lparr>header_name = lit ''X-Original-From'', header_value = original\<rparr> END) = None \<and>
    edit_error env (Update fh replacement) = None"
  then obtain ds where ds: "extract_domains (getaddresses env v) = Inr ds" "filter_none ds = []"
    using filter_none_no_at by blast
  from a have enc: "encode (32 # join [44, 32] addresses) = Inr replacement"
    by simp
  show "rewrite_forward (env\<lparr>get_dmarc_record := oracle\<rparr>) fh v edits =
        (Inr True,
         edits @ [Insert \<lparr>header_name = lit ''X-Original-From'', header_value = original\<rparr> END,
                  Update fh replacement])"
    using a ds enc
    by (simp add: rewrite_forward_def rewrite_forward_try_def replacement_addresses_oracle
        session_edit_def Let_def)
qed

theorem forward_without_domains_witness:
  "rewrite_forward (example_env\<lparr>get_dmarc_record := (\<lambda>d. Inl OtherError)\<rparr>)
     (Some undisclosed_header) (lit ''undisclosed'') [] =
     (Inr True,
      [Insert \<lparr>header_name = lit ''X-Original-From'', header_value = lit ''undisclosed''\<rparr> END,
       Update (Some undisclosed_header) (lit '' undisclosed@dmarc.example.com'')])"
proof -
  have g: "getaddresses example_env (lit ''undisclosed'') = [([], lit ''undisclosed'')]"
    by (simp add: example_env_def example_getaddresses_def)
  have h1: "\<forall>email \<in> set (getaddresses example_env (lit ''undisclosed'')). 64 \<notin> set (snd email)"
    unfolding g by simp
  have h2: "replacement_addresses example_env (getaddresses example_env (lit ''undisclosed'')) =
              Inr [lit ''undisclosed@dmarc.example.com'']"
    unfolding g by code_simp
  have h3: "encode (lit ''undisclosed'') = Inr (lit ''undisclosed'')"
    by code_simp
  have h4: "encode (lit '' '' @ join (lit '', '') [lit ''undisclosed@dmarc.example.com'']) =
              Inr (lit '' undisclosed@dmarc.example.com'')"
    by code_simp
  have h5: "edit_error example_env m = None" for m
    by (simp add: example_env_def)
  from forward_without_domains
      [of "\<lambda>d. Inl OtherError" example_env "lit ''undisclosed''"
        "[lit ''undisclosed@dmarc.example.com'']" "lit ''undisclosed''"
        "lit '' undisclosed@dmarc.example.com''" "Some undisclosed_header" "[]"]
    h1 h2 h3 h4 h5
  show ?thesis by simp
qed

section \<open>UTF-8: properties\<close>

lemma split64: "(a::nat) = a div 64 * 64 + a mod 64"
  by simp

lemma div4096: "(c::nat) div 4096 = c div 64 div 64"
  by (simp add: div_mult2_eq [symmetric])

lemma div262144: "(c::nat) div 262144 = c div 64 div 64 div 64"
  by (simp add: div_mult2_eq [symmetric])

lemma utf8_first_two_parts:
  assumes "2 \<le> h" "h \<le> 31" "l < 64"
  shows "utf8_first ((0xC0 + h) # (0x80 + l) # rest) = (Some (h * 64 + l), 2)"
  using assms by (simp add: continuation_def)

lemma utf8_first_three_parts:
  assumes "h \<le> 15" "h = 0 \<Longrightarrow> 32 \<le> m" "h = 13 \<Longrightarrow> m \<le> 31" "m < 64" "l < 64"
  shows "utf8_first ((0xE0 + h) # (0x80 + m) # (0x80 + l) # rest) = (Some (h * 4096 + m * 64 + l), 3)"
  using assms by (auto simp: continuation_def second_ok_def)

lemma utf8_first_four_parts:
  assumes "h \<le> 4" "h = 0 \<Longrightarrow> 16 \<le> k" "h = 4 \<Longrightarrow> k \<le> 15" "k < 64" "m < 64" "l < 64"
  shows "utf8_first ((0xF0 + h) # (0x80 + k) # (0x80 + m) # (0x80 + l) # rest)
           = (Some (h * 262144 + k * 4096 + m * 64 + l), 4)"
  using assms by (auto simp: continuation_def second_ok_def)


lemma shift64: "(a::nat) div 64 * 4096 + a mod 64 * 64 = a * 64"
proof -
  define q r where "q = a div 64" and "r = a mod 64"
  have "a = q * 64 + r" by (simp add: q_def r_def)
  then have "q * 4096 + r * 64 = a * 64" by simp
  then show ?thesis by (simp only: q_def r_def)
qed

lemma mod_le_31:
  assumes "(a::nat) div 64 = 13" "\<not> (864 \<le> a \<and> a \<le> 895)"
  shows "a mod 64 \<le> 31"
proof -
  define r where "r = a mod 64"
  have "r < 64" by (simp add: r_def)
  moreover have "a = 832 + r" using split64 [of a] assms(1) by (simp add: r_def)
  ultimately show ?thesis using assms(2) unfolding r_def [symmetric] by linarith
qed

lemma mod_le_15:
  assumes "(a::nat) div 64 = 4" "a < 272"
  shows "a mod 64 \<le> 15"
proof -
  define r where "r = a mod 64"
  have "a = 256 + r" using split64 [of a] assms(1) by (simp add: r_def)
  then show ?thesis using assms(2) unfolding r_def [symmetric] by linarith
qed

lemma utf8_first_encode_two:
  assumes "0x80 \<le> c" "c < 0x800"
  shows "utf8_first ((0xC0 + c div 64) # (0x80 + c mod 64) # rest) = (Some c, 2)"
proof -
  have h: "2 \<le> c div 64" "c div 64 \<le> 31" using assms by arith+
  have "utf8_first ((0xC0 + c div 64) # (0x80 + c mod 64) # rest)
          = (Some (c div 64 * 64 + c mod 64), 2)"
    by (rule utf8_first_two_parts) (use h in simp_all)
  then show ?thesis by simp
qed

lemma utf8_first_encode_three:
  assumes "0x800 \<le> c" "c < 0x10000" "\<not> (0xD800 \<le> c \<and> c \<le> 0xDFFF)"
  shows "utf8_first ((0xE0 + c div 4096) # (0x80 + (c div 64) mod 64) # (0x80 + c mod 64) # rest)
           = (Some c, 3)"
proof -
  define a where "a = c div 64"
  have a: "32 \<le> a" "a < 1024" "\<not> (864 \<le> a \<and> a \<le> 895)"
    using assms unfolding a_def by arith+
  have h: "a div 64 \<le> 15" using a(2) by arith
  have e0: "a div 64 = 0 \<Longrightarrow> 32 \<le> a mod 64"
    using a(1) by (simp add: div_eq_0_iff)
  have ed: "a div 64 = 13 \<Longrightarrow> a mod 64 \<le> 31"
    using a(3) by (rule mod_le_31 [rotated])
  have "utf8_first ((0xE0 + a div 64) # (0x80 + a mod 64) # (0x80 + c mod 64) # rest)
          = (Some (a div 64 * 4096 + a mod 64 * 64 + c mod 64), 3)"
    by (rule utf8_first_three_parts) (use h e0 ed in simp_all)
  moreover have "a div 64 * 4096 + a mod 64 * 64 + c mod 64 = c"
    using shift64 [of a] by (simp add: a_def)
  ultimately show ?thesis by (simp add: div4096 a_def)
qed

lemma utf8_first_encode_four:
  assumes "0x10000 \<le> c" "c < 0x110000"
  shows "utf8_first ((0xF0 + c div 262144) # (0x80 + (c div 4096) mod 64) #
                     (0x80 + (c div 64) mod 64) # (0x80 + c mod 64) # rest) = (Some c, 4)"
proof -
  define a where "a = c div 64"
  define b where "b = a div 64"
  have b: "16 \<le> b" "b < 272"
    using assms unfolding a_def b_def div4096 [symmetric] by arith+
  have h: "b div 64 \<le> 4" using b(2) by arith
  have f0: "b div 64 = 0 \<Longrightarrow> 16 \<le> b mod 64"
    using b(1) by (simp add: div_eq_0_iff)
  have f4: "b div 64 = 4 \<Longrightarrow> b mod 64 \<le> 15"
    using b(2) by (rule mod_le_15 [rotated])
  have "utf8_first ((0xF0 + b div 64) # (0x80 + b mod 64) # (0x80 + a mod 64) # (0x80 + c mod 64) # rest)
          = (Some (b div 64 * 262144 + b mod 64 * 4096 + a mod 64 * 64 + c mod 64), 4)"
    by (rule utf8_first_four_parts) (use h f0 f4 in simp_all)
  moreover have "b div 64 * 262144 + b mod 64 * 4096 + a mod 64 * 64 + c mod 64 = c"
  proof -
    have "b div 64 * 262144 + b mod 64 * 4096 = b * 4096"
      using shift64 [of b] by simp
    moreover have "b * 4096 + a mod 64 * 64 = a * 64"
      using shift64 [of a] by (simp add: b_def)
    ultimately show ?thesis by (simp add: a_def)
  qed
  ultimately show ?thesis by (simp add: div4096 div262144 a_def b_def)
qed

lemma utf8_encode_cp_scalar: "scalar c \<Longrightarrow> \<exists>bs. utf8_encode_cp c = Inr bs"
  by (auto simp: scalar_def utf8_encode_cp_def)

lemma utf8_encode_cp_first:
  assumes "utf8_encode_cp c = Inr bs"
  shows "utf8_first (bs @ rest) = (Some c, length bs) \<and> bs \<noteq> []"
proof -
  consider (one) "c < 0x80"
    | (two) "0x80 \<le> c" "c < 0x800"
    | (three) "0x800 \<le> c" "c < 0x10000"
    | (four) "0x10000 \<le> c" "c < 0x110000"
    | (none) "0x110000 \<le> c"
    by linarith
  then show ?thesis
  proof cases
    case one
    with assms show ?thesis by (auto simp: utf8_encode_cp_def)
  next
    case two
    with assms have "bs = [0xC0 + c div 64, 0x80 + c mod 64]"
      by (auto simp: utf8_encode_cp_def)
    with two show ?thesis using utf8_first_encode_two [of c rest] by simp
  next
    case three
    with assms have ns: "\<not> (0xD800 \<le> c \<and> c \<le> 0xDFFF)"
      and "bs = [0xE0 + c div 4096, 0x80 + (c div 64) mod 64, 0x80 + c mod 64]"
      by (auto simp: utf8_encode_cp_def split: if_splits)
    with three show ?thesis using utf8_first_encode_three [of c rest] by simp
  next
    case four
    with assms have "bs = [0xF0 + c div 262144, 0x80 + (c div 4096) mod 64,
                           0x80 + (c div 64) mod 64, 0x80 + c mod 64]"
      by (auto simp: utf8_encode_cp_def)
    with four show ?thesis using utf8_first_encode_four [of c rest] by simp
  next
    case none
    with assms show ?thesis by (auto simp: utf8_encode_cp_def)
  qed
qed

lemma utf8_encode_cp_bytes:
  assumes "utf8_encode_cp c = Inr bs"
  shows "\<forall>b \<in> set bs. b < 256"
proof -
  have m: "c mod 64 < 64" "(c div 64) mod 64 < 64" "(c div 4096) mod 64 < 64" by simp_all
  have d2: "c < 0x800 \<Longrightarrow> c div 64 < 32" by arith
  have d3: "c < 0x10000 \<Longrightarrow> c div 4096 < 16" by arith
  have d4: "c < 0x110000 \<Longrightarrow> c div 262144 < 5" by arith
  from assms show ?thesis
    using m d2 d3 d4 by (auto simp: utf8_encode_cp_def split: if_splits)
qed

lemma encode_Cons:
  "encode (c # cs) = Inr bs \<longleftrightarrow>
     (\<exists>b rest. utf8_encode_cp c = Inr b \<and> encode cs = Inr rest \<and> bs = b @ rest)"
  by (auto split: sum.splits)

lemma encode_scalar: "\<forall>c \<in> set x. scalar c \<Longrightarrow> \<exists>bs. encode x = Inr bs"
proof (induction x)
  case Nil
  then show ?case by simp
next
  case (Cons c cs)
  then obtain b rest where "utf8_encode_cp c = Inr b" "encode cs = Inr rest"
    using utf8_encode_cp_scalar [of c] by auto
  then show ?case by simp
qed

lemma encode_bytes: "encode x = Inr bs \<Longrightarrow> \<forall>b \<in> set bs. b < 256"
proof (induction x arbitrary: bs)
  case Nil
  then show ?case by simp
next
  case (Cons c cs)
  from Cons.prems obtain b rest
    where p: "utf8_encode_cp c = Inr b" "encode cs = Inr rest" "bs = b @ rest"
    unfolding encode_Cons by blast
  with Cons.IH [of rest] utf8_encode_cp_bytes [of c b] show ?case by auto
qed

lemma utf8_decode_replace_Nil: "utf8_decode_replace [] = []"
  by (simp add: utf8_decode_replace.simps)

lemma utf8_decode_replace_encode: "encode x = Inr bs \<Longrightarrow> utf8_decode_replace bs = x"
proof (induction x arbitrary: bs)
  case Nil
  then show ?case by (simp add: utf8_decode_replace_Nil)
next
  case (Cons c cs)
  from Cons.prems obtain b rest
    where p: "utf8_encode_cp c = Inr b" "encode cs = Inr rest" "bs = b @ rest"
    unfolding encode_Cons by blast
  from utf8_encode_cp_first [OF p(1), of rest]
  have f: "utf8_first (b @ rest) = (Some c, length b)" and ne: "b \<noteq> []" by simp_all
  have "utf8_decode_replace (b @ rest) = c # utf8_decode_replace rest"
    using f ne by (subst utf8_decode_replace.simps) simp
  with Cons.IH [OF p(2)] p(3) show ?case by simp
qed

lemma decode_encode: "encode x = Inr bs \<Longrightarrow> decode bs = Inr x"
proof (induction x arbitrary: bs)
  case Nil
  then show ?case by (simp add: decode.simps)
next
  case (Cons c cs)
  from Cons.prems obtain b rest
    where p: "utf8_encode_cp c = Inr b" "encode cs = Inr rest" "bs = b @ rest"
    unfolding encode_Cons by blast
  from utf8_encode_cp_first [OF p(1), of rest]
  have f: "utf8_first (b @ rest) = (Some c, length b)" and ne: "b \<noteq> []" by simp_all
  have "decode (b @ rest) = (case decode rest of Inl e \<Rightarrow> Inl e | Inr r \<Rightarrow> Inr (c # r))"
    using f ne by (subst decode.simps) simp
  with Cons.IH [OF p(2)] p(3) show ?case by simp
qed


section \<open>Percent-encoding: properties\<close>

lemma hexval_hexdigit: "n < 16 \<Longrightarrow> hexval (hexdigit n) = Some n"
  by (simp add: hexval_def hexdigit_def)

lemma hexdigit_safe: "n < 16 \<Longrightarrow> safe_byte (hexdigit n)"
  by (auto simp: safe_byte_def hexdigit_def)

lemma safe_byte_ascii: "safe_byte c \<Longrightarrow> c < 128"
  by (auto simp: safe_byte_def)

lemma unquote_to_bytes_other: "p \<noteq> 37 \<Longrightarrow> unquote_to_bytes (p # s) = p # unquote_to_bytes s"
  by (cases s rule: unquote_to_bytes.cases) simp_all

lemma unquote_to_bytes_quote_byte:
  assumes "b < 256"
  shows "unquote_to_bytes (quote_byte b @ s) = b # unquote_to_bytes s"
proof (cases "safe_byte b")
  case True
  then have "b \<noteq> 37" by (auto simp: safe_byte_def)
  with True show ?thesis by (simp add: quote_byte_def unquote_to_bytes_other)
next
  case False
  have "b div 16 < 16" using assms by arith
  then have "hexval (hexdigit (b div 16)) = Some (b div 16)"
    and "hexval (hexdigit (b mod 16)) = Some (b mod 16)"
    by (simp_all add: hexval_hexdigit)
  with False show ?thesis by (simp add: quote_byte_def)
qed

lemma unquote_to_bytes_quote:
  "\<forall>b \<in> set bs. b < 256 \<Longrightarrow> unquote_to_bytes (quote_from_bytes bs) = bs"
  by (induction bs) (simp_all add: quote_from_bytes_def unquote_to_bytes_quote_byte)

lemma quote_byte_chars:
  assumes "b < 256" "c \<in> set (quote_byte b)"
  shows "safe_byte c \<or> c = 37"
proof -
  have "b div 16 < 16" using assms(1) by arith
  then have "safe_byte (hexdigit (b div 16))" "safe_byte (hexdigit (b mod 16))"
    by (simp_all add: hexdigit_safe)
  with assms(2) show ?thesis by (auto simp: quote_byte_def split: if_splits)
qed

lemma quote_from_bytes_chars:
  "\<forall>b \<in> set bs. b < 256 \<Longrightarrow> c \<in> set (quote_from_bytes bs) \<Longrightarrow> safe_byte c \<or> c = 37"
  using quote_byte_chars by (auto simp: quote_from_bytes_def)

lemma utf8_decode_replace_ascii: "\<forall>c \<in> set s. c < 128 \<Longrightarrow> utf8_decode_replace s = s"
proof (induction s)
  case Nil
  then show ?case by (simp add: utf8_decode_replace_Nil)
next
  case (Cons c cs)
  then have "utf8_decode_replace (c # cs) = c # utf8_decode_replace cs"
    by (subst utf8_decode_replace.simps) simp
  with Cons show ?case by simp
qed

lemma unquote_parts_ascii:
  assumes "\<forall>c \<in> set s. c < 128"
  shows "unquote_parts s = utf8_decode_replace (unquote_to_bytes s)"
proof (cases s)
  case Nil
  then show ?thesis by (simp add: utf8_decode_replace_Nil)
next
  case (Cons c cs)
  with assms have r: "takeWhile (\<lambda>x. x < 128) cs = cs" "dropWhile (\<lambda>x. x < 128) cs = []"
    and c: "c < 128"
    by (simp_all add: takeWhile_eq_all_conv)
  show ?thesis unfolding Cons using c by (simp add: r)
qed

lemma escape_free_tl: "escape_free (c # cs) \<Longrightarrow> escape_free cs"
  by (cases cs rule: escape_free.cases) auto

lemma escape_free_suffix: "escape_free (xs @ ys) \<Longrightarrow> escape_free ys"
  by (induction xs) (auto dest: escape_free_tl)

lemma escape_free_prefix: "escape_free (xs @ ys) \<Longrightarrow> escape_free xs"
  by (induction xs rule: escape_free.induct) auto

lemma escape_free_no_percent: "37 \<notin> set s \<Longrightarrow> escape_free s"
  by (induction s rule: escape_free.induct) auto

lemma unquote_to_bytes_escape_free: "escape_free s \<Longrightarrow> unquote_to_bytes s = s"
  by (induction s rule: unquote_to_bytes.induct) (auto split: option.splits)

lemma unquote_parts_escape_free: "escape_free s \<Longrightarrow> unquote_parts s = s"
proof (induction s rule: unquote_parts.induct)
  case 1
  then show ?case by simp
next
  case (2 c cs)
  show ?case
  proof (cases "c < 128")
    case True
    let ?run = "c # takeWhile (\<lambda>x. x < 128) cs"
    let ?rest = "dropWhile (\<lambda>x. x < 128) cs"
    have s: "c # cs = ?run @ ?rest" by simp
    have "escape_free ?run" using "2.prems" escape_free_prefix [of ?run ?rest] by simp
    then have a: "unquote_to_bytes ?run = ?run" by (rule unquote_to_bytes_escape_free)
    have "\<forall>x \<in> set ?run. x < 128" using True by (auto dest: set_takeWhileD)
    then have b: "utf8_decode_replace ?run = ?run" by (rule utf8_decode_replace_ascii)
    have "escape_free ?rest" using "2.prems" escape_free_suffix [of ?run ?rest] by simp
    with "2.IH"(1) True have "unquote_parts ?rest = ?rest" by simp
    with a b True show ?thesis by simp
  next
    case False
    with "2.prems" "2.IH"(2) show ?thesis by (auto dest: escape_free_tl)
  qed
qed

lemma unquote_eq_parts: "unquote s = unquote_parts s"
  by (simp add: unquote_def unquote_parts_escape_free escape_free_no_percent)

text \<open>A malformed percent sequence stays; what stands before and after it is decoded on its own.\<close>

lemma hexval_percent: "hexval 37 = None"
  by (simp add: hexval_def)

lemma unquote_to_bytes_malformed:
  "malformed_start s \<Longrightarrow> unquote_to_bytes (37 # s) = 37 # unquote_to_bytes s"
  by (cases s rule: malformed_start.cases) (auto split: option.splits)

lemma unquote_to_bytes_one_malformed:
  "malformed_start s \<Longrightarrow> unquote_to_bytes (p # 37 # s) = p # 37 # unquote_to_bytes s"
  by (cases s) (auto simp: hexval_percent unquote_to_bytes_malformed split: option.splits)

lemma unquote_to_bytes_split:
  "malformed_start s2 \<Longrightarrow>
   unquote_to_bytes (s1 @ 37 # s2) = unquote_to_bytes s1 @ 37 # unquote_to_bytes s2"
  by (induction s1 rule: unquote_to_bytes.induct)
    (auto simp: hexval_percent unquote_to_bytes_malformed unquote_to_bytes_one_malformed
      split: option.splits)

lemma second_ok_continuation: "second_ok b0 b1 \<Longrightarrow> continuation b1"
  by (auto simp: second_ok_def continuation_def split: if_splits)

lemma utf8_first_append:
  assumes "bs \<noteq> []" "\<not> continuation c"
  shows "utf8_first (bs @ c # rest) = utf8_first bs"
proof -
  have nc: "\<not> second_ok b c" for b
    using assms(2) second_ok_continuation by blast
  from assms(1) obtain b0 t0 where b: "bs = b0 # t0" by (cases bs) auto
  show ?thesis
  proof (cases t0)
    case Nil
    with b nc assms(2) show ?thesis by simp
  next
    case t1: (Cons b1 t1)
    show ?thesis
    proof (cases t1)
      case Nil
      with b t1 nc assms(2) show ?thesis by simp
    next
      case t2: (Cons b2 t2)
      show ?thesis
      proof (cases t2)
        case Nil
        with b t1 t2 nc assms(2) show ?thesis by simp
      next
        case (Cons b3 t3)
        with b t1 t2 show ?thesis by simp
      qed
    qed
  qed
qed

lemma utf8_first_length: "bs \<noteq> [] \<Longrightarrow> snd (utf8_first bs) \<le> length bs"
  by (cases bs) (auto split: list.splits)

lemma utf8_decode_replace_ascii_Cons:
  "c < 128 \<Longrightarrow> utf8_decode_replace (c # bs) = c # utf8_decode_replace bs"
  by (subst utf8_decode_replace.simps) simp

lemma utf8_decode_replace_split:
  assumes "c < 128"
  shows "utf8_decode_replace (b1 @ c # b2) = utf8_decode_replace b1 @ c # utf8_decode_replace b2"
proof (induction b1 rule: utf8_decode_replace.induct)
  case (1 bs)
  show ?case
  proof (cases "bs = []")
    case True
    with assms show ?thesis
      by (simp add: utf8_decode_replace_ascii_Cons utf8_decode_replace_Nil)
  next
    case False
    have nc: "\<not> continuation c" using assms by (simp add: continuation_def)
    let ?n = "snd (utf8_first bs)"
    have f: "utf8_first (bs @ c # b2) = utf8_first bs"
      using False nc by (rule utf8_first_append)
    have n: "?n \<le> length bs" using False by (rule utf8_first_length)
    have "utf8_decode_replace (bs @ c # b2) =
            (case fst (utf8_first bs) of None \<Rightarrow> 0xFFFD | Some x \<Rightarrow> x)
              # utf8_decode_replace (drop ?n bs @ c # b2)"
      using n by (subst utf8_decode_replace.simps) (simp add: f)
    also have "utf8_decode_replace (drop ?n bs @ c # b2) =
                 utf8_decode_replace (drop ?n bs) @ c # utf8_decode_replace b2"
      using False by (rule "1.IH")
    finally show ?thesis
      using False by (subst (2) utf8_decode_replace.simps) simp
  qed
qed

lemma unquote_parts_run:
  "unquote_parts s =
     utf8_decode_replace (unquote_to_bytes (takeWhile (\<lambda>x. x < 128) s))
       @ unquote_parts (dropWhile (\<lambda>x. x < 128) s)"
  by (cases s) (simp_all add: utf8_decode_replace_Nil)

lemma malformed_start_takeWhile: "malformed_start s \<Longrightarrow> malformed_start (takeWhile P s)"
  by (cases s rule: malformed_start.cases) auto

lemma unquote_parts_split_ascii:
  assumes "\<forall>x \<in> set s1. x < 128" "malformed_start s2"
  shows "unquote_parts (s1 @ 37 # s2) = unquote_parts s1 @ 37 # unquote_parts s2"
proof -
  let ?P = "\<lambda>x::nat. x < 128"
  let ?run = "takeWhile ?P s2"
  let ?rest = "dropWhile ?P s2"
  have p: "\<forall>x \<in> set (s1 @ [37]). ?P x" using assms(1) by auto
  have t: "takeWhile ?P ((s1 @ [37]) @ s2) = (s1 @ [37]) @ ?run"
    using p by (intro takeWhile_append2) blast
  have d: "dropWhile ?P ((s1 @ [37]) @ s2) = ?rest"
    using p by (intro dropWhile_append2) blast
  have "unquote_parts (s1 @ 37 # s2) =
          utf8_decode_replace (unquote_to_bytes (s1 @ 37 # ?run)) @ unquote_parts ?rest"
    using unquote_parts_run [of "s1 @ 37 # s2"] t d by simp
  also have "unquote_to_bytes (s1 @ 37 # ?run) = unquote_to_bytes s1 @ 37 # unquote_to_bytes ?run"
    using assms(2) by (intro unquote_to_bytes_split malformed_start_takeWhile)
  also have "utf8_decode_replace (unquote_to_bytes s1 @ 37 # unquote_to_bytes ?run) =
               utf8_decode_replace (unquote_to_bytes s1) @ 37 # utf8_decode_replace (unquote_to_bytes ?run)"
    by (rule utf8_decode_replace_split) simp
  finally have "unquote_parts (s1 @ 37 # s2) =
      utf8_decode_replace (unquote_to_bytes s1) @
        37 # (utf8_decode_replace (unquote_to_bytes ?run) @ unquote_parts ?rest)"
    by simp
  then show ?thesis
    using unquote_parts_ascii [OF assms(1)] unquote_parts_run [of s2] by simp
qed

lemma unquote_parts_split:
  "malformed_start s2 \<Longrightarrow>
   unquote_parts (s1 @ 37 # s2) = unquote_parts s1 @ 37 # unquote_parts s2"
proof (induction s1 rule: unquote_parts.induct)
  case 1
  then show ?case using unquote_parts_split_ascii [of "[]" s2] by simp
next
  case (2 c cs)
  let ?P = "\<lambda>x::nat. x < 128"
  show ?case
  proof (cases "c < 128")
    case False
    with 2 show ?thesis by simp
  next
    case True
    show ?thesis
    proof (cases "\<forall>x \<in> set cs. x < 128")
      case all: True
      with True have "\<forall>x \<in> set (c # cs). x < 128" by simp
      then show ?thesis using "2.prems" by (rule unquote_parts_split_ascii)
    next
      case some: False
      then obtain x where x: "x \<in> set cs" "\<not> ?P x" by blast
      have t: "takeWhile ?P (cs @ 37 # s2) = takeWhile ?P cs"
        using x by (rule takeWhile_append1)
      have d: "dropWhile ?P (cs @ 37 # s2) = dropWhile ?P cs @ 37 # s2"
        using x by (rule dropWhile_append1)
      have "unquote_parts (dropWhile ?P cs @ 37 # s2) =
              unquote_parts (dropWhile ?P cs) @ 37 # unquote_parts s2"
        using True "2.prems" by (rule "2.IH"(1))
      with True show ?thesis by (simp add: t d)
    qed
  qed
qed

lemma unquote_split:
  "malformed_start s2 \<Longrightarrow> unquote (s1 @ 37 # s2) = unquote s1 @ 37 # unquote s2"
  by (simp add: unquote_eq_parts unquote_parts_split)

section \<open>The address codec: properties\<close>

lemma replace_single:
  "replace s [a] new = concat (map (\<lambda>x. if x = a then new else [x]) s)"
proof (induction s)
  case Nil
  then show ?case by (simp add: replace.simps)
next
  case (Cons x xs)
  then show ?case by (subst replace.simps) simp
qed

lemma replace_char: "replace s [a] [b] = map (\<lambda>x. if x = a then b else x) s"
  by (induction s) (simp_all add: replace_single)

lemma replace_char_back:
  "a \<notin> set s \<or> a = b \<Longrightarrow> replace (replace s [b] [a]) [a] [b] = s"
  by (induction s) (auto simp: replace_char)

lemma unquote_quote_from_bytes:
  assumes "encode x = Inr bs"
  shows "unquote (quote_from_bytes bs) = x"
proof -
  have b: "\<forall>b \<in> set bs. b < 256" using assms by (rule encode_bytes)
  have "\<forall>c \<in> set (quote_from_bytes bs). c < 128"
    using quote_from_bytes_chars [OF b] safe_byte_ascii by fastforce
  then have "unquote_parts (quote_from_bytes bs) = utf8_decode_replace (unquote_to_bytes (quote_from_bytes bs))"
    by (rule unquote_parts_ascii)
  also have "\<dots> = utf8_decode_replace bs" using b by (simp add: unquote_to_bytes_quote)
  also have "\<dots> = x" using assms by (rule utf8_decode_replace_encode)
  finally show ?thesis by (simp add: unquote_eq_parts)
qed

text \<open>
  C1. For every local part whose characters UTF-8 can encode, and every quote character
  that \<^verbatim>\<open>quote\<close> does not leave as it is (so not a letter, a digit or one of \<^verbatim>\<open>_.-~/\<close>, the
  characters an encoded string is made of besides \<^verbatim>\<open>%\<close>), encoding succeeds and decoding
  the result with the same quote character gives the local part back.
\<close>

theorem quote_unquote_round_trip:
  assumes "\<forall>c \<in> set x. scalar c" "\<not> safe_byte q"
  shows "\<exists>e. quote_email_address x [q] = Inr e \<and> unquote_email_address e [q] = x"
proof -
  from assms(1) obtain bs where bs: "encode x = Inr bs"
    using encode_scalar by blast
  have b: "\<forall>b \<in> set bs. b < 256" using bs by (rule encode_bytes)
  let ?quoted = "quote_from_bytes bs"
  have e: "quote_email_address x [q] = Inr (replace ?quoted [37] [q])"
    using bs by (simp add: quote_email_address_def quote_def)
  have "q \<notin> set ?quoted \<or> q = 37"
    using quote_from_bytes_chars [OF b, of q] assms(2) by blast
  then have "replace (replace ?quoted [37] [q]) [q] [37] = ?quoted"
    by (rule replace_char_back)
  then have "unquote_email_address (replace ?quoted [37] [q]) [q] = x"
    using unquote_quote_from_bytes [OF bs] by (simp add: unquote_email_address_def)
  with e show ?thesis by blast
qed

theorem quote_unquote_round_trip_witness:
  "quote_email_address (233 # lit ''@example.com'') (lit ''='') = Inr (lit ''=C3=A9=40example.com'') \<and>
   unquote_email_address (lit ''=C3=A9=40example.com'') (lit ''='') = 233 # lit ''@example.com''"
proof -
  have h1: "\<forall>c \<in> set (233 # lit ''@example.com''). scalar c"
    by (simp add: scalar_def)
  have h2: "\<not> safe_byte 61"
    by (simp add: safe_byte_def)
  have q: "quote_email_address (233 # lit ''@example.com'') [61] = Inr (lit ''=C3=A9=40example.com'')"
    by code_simp
  from quote_unquote_round_trip [OF h1 h2] q show ?thesis by auto
qed

text \<open>
  The condition on the quote character is needed: \<^verbatim>\<open>~\<close> is left as it is by \<^verbatim>\<open>quote\<close>, and
  a local part that holds one does not come back.
\<close>

lemma tilde_quote_char_collides:
  "quote_email_address (lit ''a~b'') (lit ''~'') = Inr (lit ''a~b'') \<and>
   unquote_email_address (lit ''a~b'') (lit ''~'') = lit ''a%b''"
  by code_simp

text \<open>
  C7, as the code has it. Take the string after the quote character has been replaced by
  \<^verbatim>\<open>%\<close>. A malformed percent sequence in it stays in the result: the \<^verbatim>\<open>%\<close> is kept, and the
  text before it and the text after it are decoded on their own. When every percent
  sequence is malformed, the result is that string as it is: the input with the
  replacement made and nothing else changed. The function is total: it raises nothing.
\<close>

theorem unquote_email_address_malformed:
  "(replace s q (lit ''%'') = s1 @ 37 # s2 \<and> malformed_start s2 \<longrightarrow>
      unquote_email_address s q = unquote s1 @ 37 # unquote s2) \<and>
   (escape_free (replace s q (lit ''%'')) \<longrightarrow>
      unquote_email_address s q = replace s q (lit ''%''))"
  by (auto simp: unquote_email_address_def unquote_split unquote_eq_parts unquote_parts_escape_free
      unquote_parts_split)

theorem unquote_email_address_malformed_witness:
  "(replace (lit ''=40=zz'') (lit ''='') (lit ''%'') = lit ''%40'' @ 37 # lit ''zz'' \<and>
    malformed_start (lit ''zz'') \<and>
    unquote_email_address (lit ''=40=zz'') (lit ''='') = lit ''@'' @ 37 # lit ''zz'') \<and>
   (escape_free (replace (lit ''=zz'') (lit ''='') (lit ''%'')) \<and>
    unquote_email_address (lit ''=zz'') (lit ''='') = lit ''%zz'')"
proof -
  have r1: "replace (lit ''=40=zz'') (lit ''='') (lit ''%'') = lit ''%40'' @ 37 # lit ''zz''"
    by code_simp
  have m: "malformed_start (lit ''zz'')"
    by (simp add: hexval_def)
  have u: "unquote (lit ''%40'') = lit ''@''" "unquote (lit ''zz'') = lit ''zz''"
    by code_simp+
  have r2: "replace (lit ''=zz'') (lit ''='') (lit ''%'') = lit ''%zz''"
    by code_simp
  have e: "escape_free (replace (lit ''=zz'') (lit ''='') (lit ''%''))"
    unfolding r2 by (simp add: hexval_def)
  have a: "unquote_email_address (lit ''=40=zz'') (lit ''='') = lit ''@'' @ 37 # lit ''zz''"
    using unquote_email_address_malformed
      [of "lit ''=40=zz''" "lit ''=''" "lit ''%40''" "lit ''zz''"] r1 m u
    by metis
  have b: "unquote_email_address (lit ''=zz'') (lit ''='') = lit ''%zz''"
    using unquote_email_address_malformed [of "lit ''=zz''" "lit ''=''"] e r2
    by metis
  from r1 m a e b show ?thesis by blast
qed

text \<open>
  C7 as it is written fails: the result for \<^verbatim>\<open>=zz\<close> is \<^verbatim>\<open>%zz\<close>, not the input, and a
  well-formed sequence beside a malformed one is decoded.
\<close>

theorem unquote_email_address_malformed_counterexample:
  "unquote_email_address (lit ''=zz'') (lit ''='') \<noteq> lit ''=zz'' \<and>
   unquote_email_address (lit ''=40=zz'') (lit ''='') = lit ''@%zz''"
  by code_simp

end
